theory Spec2Isabelle
  imports Complex_Main "HOL-Library.AList"
begin

section \<open>The background coordinator of the Flex Portal extension\<close>

text \<open>
  A shallow embedding of \<^verbatim>\<open>background.js\<close>: the notification registry, the task
  scheduler, the message router and the install listeners. The module-level maps
  \<^verbatim>\<open>activeNotifications\<close> and \<^verbatim>\<open>scheduledTasks\<close>, the platform's notifications,
  timers and device-local storage, and the console are the fields of one record that every
  function takes and returns. An \<^verbatim>\<open>async\<close> function yields the fate of its promise:
  fulfilled, rejected with an error, or never settled; each carries the state reached.
\<close>

subsection \<open>Values, errors, console\<close>

text \<open>
  A value as JSON carries it. A number is taken exactly (JSON has no \<^verbatim>\<open>NaN\<close> and no
  infinity, and the rounding of floating point is not modelled), a \<open>char\<close> of a string
  stands for one of its characters, and an object lists each of its properties once, in the
  order of the list (the place JavaScript gives to integer-like keys is not kept).
\<close>

datatype json =
    JNull
  | JBool bool
  | JNum real
  | JStr string
  | JArr "json list"
  | JObj "(string \<times> json) list"

type_synonym props = "(string \<times> json) list"

type_synonym bag = "string \<rightharpoonup> json"

text \<open>Truthiness, as \<^verbatim>\<open>if (value)\<close>, \<^verbatim>\<open>value && ...\<close> and \<^verbatim>\<open>value || ...\<close> test it.\<close>

fun truthy :: "json \<Rightarrow> bool" where
  "truthy JNull = False"
| "truthy (JBool b) = b"
| "truthy (JNum n) = (n \<noteq> 0)"
| "truthy (JStr s) = (s \<noteq> [])"
| "truthy (JArr xs) = True"
| "truthy (JObj ps) = True"

text \<open>
  \<^verbatim>\<open>value.timestamp\<close> on a value that is not \<^verbatim>\<open>null\<close>: the property of an object,
  undefined on an array and on a primitive. On \<^verbatim>\<open>null\<close> the access throws; the callers
  below branch on it first.
\<close>

fun timestamp_of :: "json \<Rightarrow> json option" where
  "timestamp_of (JObj ps) = map_of ps ''timestamp''"
| "timestamp_of v = None"

text \<open>The decimal name of an index, as the key of an array element or of a character.\<close>

definition digit :: "nat \<Rightarrow> char" where
  "digit n = ''0123456789'' ! n"

fun dec :: "nat \<Rightarrow> string" where
  "dec n = (if n < 10 then [digit n] else dec (n div 10) @ [digit (n mod 10)])"

fun index_props :: "nat \<Rightarrow> json list \<Rightarrow> props" where
  "index_props n [] = []"
| "index_props n (x # xs) = (dec n, x) # index_props (Suc n) xs"

text \<open>
  The own enumerable properties that \<^verbatim>\<open>{...value}\<close> copies: those of an object, the
  elements of an array and the characters of a string under their indices, none of another
  primitive.
\<close>

fun own_props :: "json \<Rightarrow> props" where
  "own_props (JObj ps) = ps"
| "own_props (JArr xs) = index_props 0 xs"
| "own_props (JStr s) = index_props 0 (map (\<lambda>ch. JStr [ch]) s)"
| "own_props v = []"

text \<open>\<^verbatim>\<open>{...target, ...source}\<close>: a property of the source replaces the target's.\<close>

definition spread :: "props \<Rightarrow> props \<Rightarrow> props" where
  "spread target source = fold (\<lambda>(k, v). AList.update k v) source target"

datatype js_error = Error (message: string)

datatype console_entry =
    ConsoleLog string
  | ConsoleLogN string nat
  | ConsoleWarn string
  | ConsoleError string js_error

subsection \<open>State\<close>

text \<open>A record of \<^verbatim>\<open>activeNotifications\<close>.\<close>

record notification =
  createdAt :: int
  updatedAt :: "int option"
  options :: bag

text \<open>A record of \<^verbatim>\<open>scheduledTasks\<close>: \<^verbatim>\<open>{ action, interval, data, intervalId }\<close>.\<close>

text \<open>The \<^verbatim>\<open>data\<close> object of a task, by its properties.\<close>

type_synonym task_data = props

record task_entry =
  action :: string
  interval :: int
  data :: task_data
  intervalId :: nat

text \<open>
  A live platform timer made by \<^verbatim>\<open>setInterval(executeTask, interval)\<close>: the closure
  \<^verbatim>\<open>executeTask\<close> captures \<^verbatim>\<open>id\<close>, \<^verbatim>\<open>action\<close> and \<^verbatim>\<open>data\<close>.
\<close>

record timer =
  timer_task :: string
  timer_action :: string
  timer_data :: task_data
  period :: int

record world =
  activeNotifications :: "(string \<times> notification) list"
  scheduledTasks :: "string \<rightharpoonup> task_entry"
  shown :: "string \<rightharpoonup> bag"
  timers :: "(nat \<times> timer) list"
  next_handle :: nat
  storage :: "(string \<times> json) list"
  storage_sets :: "(string \<times> json) list list"
  tabs :: "nat list"
  outbox :: "(nat \<times> string) list"
  opened :: "string list"
  clock :: int
  console :: "console_entry list"

text \<open>
  How \<^verbatim>\<open>chrome.storage.local.get\<close> ends: it calls its callback with the items, it
  calls it with an undefined result (the read failed and \<^verbatim>\<open>chrome.runtime.lastError\<close> is
  set), or the call itself throws.
\<close>

datatype storage_read = ReadOk | ReadFails | ReadThrows js_error

text \<open>
  What the platform and the language runtime do when called. A notification call rejects
  with the given error for the ids it is given one for. A storage write
  (\<^verbatim>\<open>set\<close>, \<^verbatim>\<open>remove\<close>) takes effect when \<open>storage_writes\<close> holds and calls its
  callback either way. \<^verbatim>\<open>chrome.runtime.getManifest\<close> returns a version or throws.
  \<open>to_number\<close> is the conversion of a string, an array or an object to a number, \<open>None\<close>
  for \<^verbatim>\<open>NaN\<close>; \<open>toISOString\<close> renders an instant. The calls of \<^verbatim>\<open>chrome.tabs\<close>,
  \<^verbatim>\<open>setInterval\<close> and \<^verbatim>\<open>clearInterval\<close> succeed.
\<close>

record chrome =
  create_fault :: "string \<Rightarrow> js_error option"
  update_fault :: "string \<Rightarrow> js_error option"
  clear_fault :: "string \<Rightarrow> js_error option"
  storage_read :: storage_read
  storage_writes :: bool
  manifest_version :: "js_error + string"
  extension_id :: string
  to_number :: "json \<Rightarrow> real option"
  toISOString :: "int \<Rightarrow> string"

text \<open>
  The fate of a promise. \<open>Pending\<close> is a promise that never settles: an \<^verbatim>\<open>await\<close> on
  it never resumes, and neither \<^verbatim>\<open>.then\<close> nor \<^verbatim>\<open>.catch\<close> runs.
\<close>

datatype settled = Fulfilled world | Rejected js_error world | Pending world

fun state_of :: "settled \<Rightarrow> world" where
  "state_of (Fulfilled w) = w"
| "state_of (Rejected e w) = w"
| "state_of (Pending w) = w"

fun rejected :: "settled \<Rightarrow> bool" where
  "rejected (Fulfilled w) = False"
| "rejected (Rejected e w) = True"
| "rejected (Pending w) = False"

fun pending :: "settled \<Rightarrow> bool" where
  "pending (Fulfilled w) = False"
| "pending (Rejected e w) = False"
| "pending (Pending w) = True"

definition say :: "console_entry \<Rightarrow> world \<Rightarrow> world" where
  "say entry w = w\<lparr>console := console w @ [entry]\<rparr>"

subsection \<open>The platform's notification calls\<close>

definition notifications_create :: "chrome \<Rightarrow> string \<Rightarrow> bag \<Rightarrow> world \<Rightarrow> settled" where
  "notifications_create c ident opts w =
     (case create_fault c ident of
        Some e \<Rightarrow> Rejected e w
      | None \<Rightarrow> Fulfilled (w\<lparr>shown := (shown w)(ident \<mapsto> opts)\<rparr>))"

definition notifications_update :: "chrome \<Rightarrow> string \<Rightarrow> bag \<Rightarrow> world \<Rightarrow> settled" where
  "notifications_update c ident opts w =
     (case update_fault c ident of
        Some e \<Rightarrow> Rejected e w
      | None \<Rightarrow>
          (case shown w ident of
             None \<Rightarrow> Fulfilled w
           | Some old \<Rightarrow> Fulfilled (w\<lparr>shown := (shown w)(ident \<mapsto> old ++ opts)\<rparr>)))"

definition notifications_clear :: "chrome \<Rightarrow> string \<Rightarrow> world \<Rightarrow> settled" where
  "notifications_clear c ident w =
     (case clear_fault c ident of
        Some e \<Rightarrow> Rejected e w
      | None \<Rightarrow> Fulfilled (w\<lparr>shown := (shown w)(ident := None)\<rparr>))"

subsection \<open>Notification handling\<close>

definition defaultOptions :: "bag \<Rightarrow> bag" where
  "defaultOptions opts =
     [''icon'' \<mapsto> JStr ''icons/icon-48x48.png'',
      ''badge'' \<mapsto> JStr ''icons/icon-badge-32x32.png'',
      ''requireInteraction'' \<mapsto> JBool False] ++ opts"

definition showNotification :: "chrome \<Rightarrow> string \<Rightarrow> bag \<Rightarrow> world \<Rightarrow> settled" where
  "showNotification c ident opts w =
     (case notifications_create c ident ([''type'' \<mapsto> JStr ''basic''] ++ defaultOptions opts) w of
        Rejected e w1 \<Rightarrow>
          Fulfilled (say (ConsoleError (''[Notification Error] Failed to create notification '' @ ident) e) w1)
      | Fulfilled w1 \<Rightarrow>
          Fulfilled (say (ConsoleLog (''[Notification] Created: '' @ ident))
            (w1\<lparr>activeNotifications :=
                  AList.update ident
                    \<lparr>createdAt = clock w1, updatedAt = None, options = defaultOptions opts\<rparr>
                    (activeNotifications w1)\<rparr>))
      | Pending w1 \<Rightarrow> Pending w1)"

definition updateNotification :: "chrome \<Rightarrow> string \<Rightarrow> bag \<Rightarrow> world \<Rightarrow> settled" where
  "updateNotification c ident opts w =
     (case map_of (activeNotifications w) ident of
        None \<Rightarrow> Fulfilled (say (ConsoleWarn (''[Notification] Notification '' @ ident @ '' not found'')) w)
      | Some currentNotification \<Rightarrow>
          (let updatedOptions = options currentNotification ++ opts in
           case notifications_update c ident updatedOptions w of
             Rejected e w1 \<Rightarrow>
               Fulfilled (say (ConsoleError (''[Notification Error] Failed to update notification '' @ ident) e) w1)
           | Fulfilled w1 \<Rightarrow>
               Fulfilled (say (ConsoleLog (''[Notification] Updated: '' @ ident))
                 (w1\<lparr>activeNotifications :=
                       AList.update ident
                         \<lparr>createdAt = createdAt currentNotification,
                          updatedAt = Some (clock w1),
                          options = updatedOptions\<rparr>
                         (activeNotifications w1)\<rparr>))
           | Pending w1 \<Rightarrow> Pending w1))"

definition clearNotification :: "chrome \<Rightarrow> string \<Rightarrow> world \<Rightarrow> settled" where
  "clearNotification c ident w =
     (case notifications_clear c ident w of
        Rejected e w1 \<Rightarrow>
          Fulfilled (say (ConsoleError (''[Notification Error] Failed to clear notification '' @ ident) e) w1)
      | Fulfilled w1 \<Rightarrow>
          Fulfilled (say (ConsoleLog (''[Notification] Cleared: '' @ ident))
            (w1\<lparr>activeNotifications := AList.delete ident (activeNotifications w1)\<rparr>))
      | Pending w1 \<Rightarrow> Pending w1)"

text \<open>
  The loop of \<^verbatim>\<open>clearAllNotifications\<close> over \<^verbatim>\<open>activeNotifications.keys()\<close>, in
  insertion order; the first rejected \<^verbatim>\<open>await\<close> leaves the loop.
\<close>

fun clear_each :: "chrome \<Rightarrow> string list \<Rightarrow> world \<Rightarrow> settled" where
  "clear_each c [] w = Fulfilled w"
| "clear_each c (ident # rest) w =
     (case notifications_clear c ident w of
        Rejected e w1 \<Rightarrow> Rejected e w1
      | Fulfilled w1 \<Rightarrow> clear_each c rest w1
      | Pending w1 \<Rightarrow> Pending w1)"

definition clearAllNotifications :: "chrome \<Rightarrow> world \<Rightarrow> settled" where
  "clearAllNotifications c w =
     (case clear_each c (map fst (activeNotifications w)) w of
        Rejected e w1 \<Rightarrow>
          Fulfilled (say (ConsoleError ''[Notification Error] Failed to clear all notifications:'' e) w1)
      | Fulfilled w1 \<Rightarrow>
          Fulfilled (say (ConsoleLog ''[Notification] All notifications cleared'')
            (w1\<lparr>activeNotifications := []\<rparr>))
      | Pending w1 \<Rightarrow> Pending w1)"

subsection \<open>Device-local storage, tabs, timers\<close>

text \<open>
  \<^verbatim>\<open>chrome.storage.local.set(items)\<close> writes every item and
  \<^verbatim>\<open>chrome.storage.local.remove(keys)\<close> drops the keys, when the write takes effect;
  \<open>storage_sets\<close> keeps the calls of \<^verbatim>\<open>set\<close> made, in order.
\<close>

definition storage_set :: "chrome \<Rightarrow> (string \<times> json) list \<Rightarrow> world \<Rightarrow> world" where
  "storage_set c items w =
     w\<lparr>storage := (if storage_writes c then fold (\<lambda>(k, v). AList.update k v) items (storage w)
                    else storage w),
       storage_sets := storage_sets w @ [items]\<rparr>"

definition storage_remove :: "chrome \<Rightarrow> string list \<Rightarrow> world \<Rightarrow> world" where
  "storage_remove c keys w =
     (if storage_writes c then w\<lparr>storage := filter (\<lambda>(k, v). k \<notin> set keys) (storage w)\<rparr> else w)"

text \<open>
  \<^verbatim>\<open>chrome.tabs.query({}, tabs => tabs.forEach(tab => chrome.tabs.sendMessage(tab.id, ...)))\<close>:
  one message per open tab; a tab's rejection is caught and dropped by the source.
\<close>

definition broadcast :: "string \<Rightarrow> world \<Rightarrow> world" where
  "broadcast msg w = w\<lparr>outbox := outbox w @ map (\<lambda>t. (t, msg)) (tabs w)\<rparr>"

definition setInterval :: "timer \<Rightarrow> world \<Rightarrow> nat \<times> world" where
  "setInterval t w =
     (next_handle w, w\<lparr>timers := timers w @ [(next_handle w, t)], next_handle := Suc (next_handle w)\<rparr>)"

definition clearInterval :: "nat \<Rightarrow> world \<Rightarrow> world" where
  "clearInterval h w = w\<lparr>timers := AList.delete h (timers w)\<rparr>"

subsection \<open>Background tasks\<close>

text \<open>The task object of \<^verbatim>\<open>scheduleBackgroundTask\<close>; \<open>None\<close> is an omitted property.\<close>

record task =
  task_id :: string
  task_action :: string
  task_interval :: "int option"
  task_data :: "task_data option"

text \<open>
  \<^verbatim>\<open>syncData\<close>. A throw of \<^verbatim>\<open>chrome.storage.local.get\<close> in the promise's executor
  rejects the promise. With an undefined result, \<^verbatim>\<open>result.flexPortalData\<close> throws inside
  the callback, where nothing catches it: \<^verbatim>\<open>resolve\<close> is never called. Otherwise
  \<^verbatim>\<open>{ ...currentData, ...data, lastSync }\<close> is stored, with
  \<^verbatim>\<open>currentData = result.flexPortalData || {}\<close>, and \<^verbatim>\<open>resolve\<close> is the callback of
  \<^verbatim>\<open>set\<close>.
\<close>

definition syncData :: "chrome \<Rightarrow> task_data \<Rightarrow> world \<Rightarrow> settled" where
  "syncData c d w =
     (case storage_read c of
        ReadThrows e \<Rightarrow> Rejected e w
      | ReadFails \<Rightarrow> Pending w
      | ReadOk \<Rightarrow>
          (let currentData = (case map_of (storage w) ''flexPortalData'' of
                               None \<Rightarrow> JObj []
                             | Some v \<Rightarrow> if truthy v then v else JObj []);
               updatedData = JObj (spread (spread (spread [] (own_props currentData)) d)
                                     [(''lastSync'', JStr (toISOString c (clock w)))])
           in Fulfilled (storage_set c [(''flexPortalData'', updatedData)] w)))"

definition checkPortalStatus :: "task_data \<Rightarrow> world \<Rightarrow> settled" where
  "checkPortalStatus d w =
     Fulfilled (say (ConsoleLog ''[Background Task] Portal status checked'') (broadcast ''CHECK_STATUS'' w))"

text \<open>
  The number an operand of \<^verbatim>\<open>-\<close> or \<^verbatim>\<open>>\<close> stands for; \<open>None\<close> is \<^verbatim>\<open>NaN\<close>.
\<close>

fun numeric :: "chrome \<Rightarrow> json \<Rightarrow> real option" where
  "numeric c JNull = Some 0"
| "numeric c (JBool b) = Some (if b then 1 else 0)"
| "numeric c (JNum n) = Some n"
| "numeric c v = to_number c v"

text \<open>
  \<^verbatim>\<open>value.timestamp && (now - value.timestamp) > maxAge\<close> on a value that is not
  \<^verbatim>\<open>null\<close>: a falsy timestamp ends it, and a comparison with \<^verbatim>\<open>NaN\<close> is false.
\<close>

definition stale :: "chrome \<Rightarrow> int \<Rightarrow> json \<Rightarrow> json \<Rightarrow> bool" where
  "stale c now age v =
     (case timestamp_of v of
        None \<Rightarrow> False
      | Some ts \<Rightarrow>
          truthy ts \<and>
          (case numeric c ts of
             None \<Rightarrow> False
           | Some n \<Rightarrow> (case numeric c age of None \<Rightarrow> False | Some m \<Rightarrow> real_of_int now - n > m)))"

text \<open>\<^verbatim>\<open>data.maxAge || 7 * 24 * 60 * 60 * 1000\<close>: an absent \<^verbatim>\<open>maxAge\<close> and a falsy one give the default.\<close>

definition effective_maxAge :: "task_data \<Rightarrow> json" where
  "effective_maxAge d =
     (case map_of d ''maxAge'' of
        None \<Rightarrow> JNum (7 * 24 * 60 * 60 * 1000)
      | Some v \<Rightarrow> if truthy v then v else JNum (7 * 24 * 60 * 60 * 1000))"

text \<open>
  \<^verbatim>\<open>cleanupCache\<close>. The promise is returned from inside the \<^verbatim>\<open>try\<close> without an
  \<^verbatim>\<open>await\<close>, so a throw of \<^verbatim>\<open>chrome.storage.local.get\<close> rejects it past the
  \<^verbatim>\<open>catch\<close>. Inside the callback nothing catches: with an undefined result
  \<^verbatim>\<open>Object.entries(items)\<close> throws, and at a stored \<^verbatim>\<open>null\<close> \<^verbatim>\<open>value.timestamp\<close>
  throws; neither branch that calls \<^verbatim>\<open>resolve\<close> is reached and nothing is removed.
\<close>

definition cleanupCache :: "chrome \<Rightarrow> task_data \<Rightarrow> world \<Rightarrow> settled" where
  "cleanupCache c d w =
     (let age = effective_maxAge d in
      case storage_read c of
        ReadThrows e \<Rightarrow> Rejected e w
      | ReadFails \<Rightarrow> Pending w
      | ReadOk \<Rightarrow>
          if JNull \<in> set (map snd (storage w)) then Pending w
          else (let now = clock w;
                    keysToRemove = map fst (filter (\<lambda>(key, v). stale c now age v) (storage w))
                in if length keysToRemove > 0
                   then Fulfilled (say (ConsoleLogN ''[Background Task] Cleaned up items:'' (length keysToRemove))
                                     (storage_remove c keysToRemove w))
                   else Fulfilled (say (ConsoleLog ''[Background Task] Cache cleanup: no items to remove'') w)))"

text \<open>
  \<^verbatim>\<open>refreshAuthToken\<close>: as above, and with an undefined result \<^verbatim>\<open>result.authToken\<close>
  throws inside the callback.
\<close>

definition refreshAuthToken :: "chrome \<Rightarrow> task_data \<Rightarrow> world \<Rightarrow> settled" where
  "refreshAuthToken c d w =
     (case storage_read c of
        ReadThrows e \<Rightarrow> Rejected e w
      | ReadFails \<Rightarrow> Pending w
      | ReadOk \<Rightarrow>
          (case map_of (storage w) ''authToken'' of
             None \<Rightarrow> Fulfilled w
           | Some tok \<Rightarrow>
               if truthy tok
               then Fulfilled (say (ConsoleLog ''[Background Task] Token refresh initiated'')
                                 (broadcast ''REFRESH_TOKEN'' w))
               else Fulfilled w))"

definition performBackgroundTask :: "chrome \<Rightarrow> string \<Rightarrow> string \<Rightarrow> task_data \<Rightarrow> world \<Rightarrow> settled" where
  "performBackgroundTask c ident act d w =
     (let w0 = say (ConsoleLog (''[Task Executing] '' @ ident @ '' - '' @ act)) w;
          r = (if act = ''SYNC_DATA'' then syncData c d w0
               else if act = ''CHECK_STATUS'' then checkPortalStatus d w0
               else if act = ''CLEANUP_CACHE'' then cleanupCache c d w0
               else if act = ''REFRESH_TOKEN'' then refreshAuthToken c d w0
               else Fulfilled (say (ConsoleWarn (''[Task] Unknown action: '' @ act)) w0))
      in case r of
           Rejected e w1 \<Rightarrow> Rejected e (say (ConsoleError (''[Task Execution Error] '' @ ident) e) w1)
         | Fulfilled w1 \<Rightarrow> Fulfilled w1
         | Pending w1 \<Rightarrow> Pending w1)"

text \<open>The closure \<^verbatim>\<open>executeTask\<close> of \<^verbatim>\<open>scheduleBackgroundTask\<close>.\<close>

definition executeTask :: "chrome \<Rightarrow> string \<Rightarrow> string \<Rightarrow> task_data \<Rightarrow> world \<Rightarrow> settled" where
  "executeTask c ident act d w =
     (case performBackgroundTask c ident act d w of
        Rejected e w1 \<Rightarrow>
          Fulfilled (say (ConsoleError (''[Task Error] Error executing task '' @ ident) e) w1)
      | Fulfilled w1 \<Rightarrow> Fulfilled w1
      | Pending w1 \<Rightarrow> Pending w1)"

definition interval_of :: "task \<Rightarrow> int" where
  "interval_of t = (case task_interval t of None \<Rightarrow> 0 | Some i \<Rightarrow> i)"

definition data_of :: "task \<Rightarrow> task_data" where
  "data_of t = (case task_data t of None \<Rightarrow> [] | Some d \<Rightarrow> d)"

text \<open>
  \<^verbatim>\<open>scheduleBackgroundTask\<close> up to its suspension at \<^verbatim>\<open>await executeTask()\<close>: the log
  line, and the cancellation of a task already recorded under the id.
\<close>

definition schedule_enter :: "task \<Rightarrow> world \<Rightarrow> world" where
  "schedule_enter t w =
     (let w0 = say (ConsoleLog (''[Task Scheduled] '' @ task_id t @ '' - Action: '' @ task_action t)) w
      in case scheduledTasks w0 (task_id t) of
           None \<Rightarrow> w0
         | Some prior \<Rightarrow>
             (clearInterval (intervalId prior) w0)\<lparr>scheduledTasks := (scheduledTasks w0)(task_id t := None)\<rparr>)"

text \<open>\<^verbatim>\<open>scheduleBackgroundTask\<close> after the \<^verbatim>\<open>await\<close>: the recurring timer.\<close>

definition schedule_resume :: "task \<Rightarrow> world \<Rightarrow> world" where
  "schedule_resume t w =
     (if interval_of t > 0
      then (let (h, w1) = setInterval \<lparr>timer_task = task_id t, timer_action = task_action t,
                                       timer_data = data_of t, period = interval_of t\<rparr> w
            in w1\<lparr>scheduledTasks := (scheduledTasks w1)(task_id t \<mapsto>
                      \<lparr>action = task_action t, interval = interval_of t, data = data_of t, intervalId = h\<rparr>)\<rparr>)
      else w)"

text \<open>
  A call of \<^verbatim>\<open>scheduleBackgroundTask\<close> with nothing else in between. Destructuring an
  undefined task throws before the \<^verbatim>\<open>try\<close>; a rejection inside it is logged and thrown
  again; when \<^verbatim>\<open>executeTask()\<close> never settles, the call stays at its \<^verbatim>\<open>await\<close>.
\<close>

definition scheduleBackgroundTask :: "chrome \<Rightarrow> task option \<Rightarrow> world \<Rightarrow> settled" where
  "scheduleBackgroundTask c topt w =
     (case topt of
        None \<Rightarrow> Rejected (Error ''Cannot destructure property id of task as it is undefined.'') w
      | Some t \<Rightarrow>
          (case executeTask c (task_id t) (task_action t) (data_of t) (schedule_enter t w) of
             Rejected e w2 \<Rightarrow>
               Rejected e (say (ConsoleError (''[Task Scheduling Error] '' @ task_id t) e) w2)
           | Fulfilled w2 \<Rightarrow> Fulfilled (schedule_resume t w2)
           | Pending w2 \<Rightarrow> Pending w2))"

definition cancelScheduledTask :: "string \<Rightarrow> world \<Rightarrow> bool \<times> world" where
  "cancelScheduledTask ident w =
     (case scheduledTasks w ident of
        Some t \<Rightarrow>
          (True, say (ConsoleLog (''[Task Cancelled] '' @ ident))
                   ((clearInterval (intervalId t) w)\<lparr>scheduledTasks := (scheduledTasks w)(ident := None)\<rparr>))
      | None \<Rightarrow> (False, w))"

text \<open>One firing of the live timer \<open>h\<close>: the platform calls its closure; the timer stays.\<close>

definition timer_fires :: "chrome \<Rightarrow> nat \<Rightarrow> world \<Rightarrow> settled" where
  "timer_fires c h w =
     (case map_of (timers w) h of
        None \<Rightarrow> Fulfilled w
      | Some t \<Rightarrow> executeTask c (timer_task t) (timer_action t) (timer_data t) w)"

subsection \<open>Message handling\<close>

text \<open>The inbound message: \<^verbatim>\<open>{ action, id, options, task }\<close>.\<close>

record request =
  req_action :: string
  req_id :: string
  req_options :: bag
  req_task :: "task option"

datatype response =
    Success
  | SuccessNotifications "(string \<times> notification) list"
  | SuccessStatus string int string
  | Failure string

text \<open>
  What the listener did with a request: the replies passed to \<^verbatim>\<open>sendResponse\<close>, whether
  it returned \<^verbatim>\<open>true\<close> (the reply comes after the listener has returned), and the state.
\<close>

record dispatch =
  sent :: "response list"
  keep_open :: bool
  after :: world

text \<open>
  \<^verbatim>\<open>.then(() => sendResponse({ success: true }))
   .catch(error => sendResponse({ success: false, error: error.message })); return true;\<close>
  On a promise that never settles neither callback runs and no reply is sent.
\<close>

fun answer :: "settled \<Rightarrow> dispatch" where
  "answer (Fulfilled w) = \<lparr>sent = [Success], keep_open = True, after = w\<rparr>"
| "answer (Rejected e w) = \<lparr>sent = [Failure (message e)], keep_open = True, after = w\<rparr>"
| "answer (Pending w) = \<lparr>sent = [], keep_open = True, after = w\<rparr>"

text \<open>The \<^verbatim>\<open>switch\<close> inside the listener's \<^verbatim>\<open>try\<close>; \<open>Inl\<close> is an exception thrown in it.\<close>

definition route :: "chrome \<Rightarrow> request \<Rightarrow> world \<Rightarrow> js_error + dispatch" where
  "route c req w =
     (if req_action req = ''SHOW_NOTIFICATION''
        then Inr (answer (showNotification c (req_id req) (req_options req) w))
      else if req_action req = ''UPDATE_NOTIFICATION''
        then Inr (answer (updateNotification c (req_id req) (req_options req) w))
      else if req_action req = ''CLEAR_NOTIFICATION''
        then Inr (answer (clearNotification c (req_id req) w))
      else if req_action req = ''CLEAR_ALL_NOTIFICATIONS''
        then Inr (answer (clearAllNotifications c w))
      else if req_action req = ''GET_ACTIVE_NOTIFICATIONS''
        then Inr \<lparr>sent = [SuccessNotifications (activeNotifications w)], keep_open = False, after = w\<rparr>
      else if req_action req = ''SCHEDULE_TASK''
        then Inr (answer (scheduleBackgroundTask c (req_task req) w))
      else if req_action req = ''GET_EXTENSION_STATUS''
        then (case manifest_version c of
                Inl e \<Rightarrow> Inl e
              | Inr v \<Rightarrow> Inr \<lparr>sent = [SuccessStatus ''active'' (clock w) v], keep_open = False, after = w\<rparr>)
      else Inr \<lparr>sent = [Failure ''Unknown action''], keep_open = False, after = w\<rparr>)"

text \<open>
  The listener of \<^verbatim>\<open>chrome.runtime.onMessage\<close>; \<open>Inl\<close> would be an exception that leaves
  the listener.
\<close>

definition onMessage :: "chrome \<Rightarrow> request \<Rightarrow> world \<Rightarrow> js_error + dispatch" where
  "onMessage c req w =
     (let w0 = say (ConsoleLog (''[Message Received] '' @ req_action req)) w
      in case route c req w0 of
           Inl e \<Rightarrow> Inr \<lparr>sent = [Failure (message e)], keep_open = False,
                          after = say (ConsoleError ''[Message Handler Error]'' e) w0\<rparr>
         | Inr d \<Rightarrow> Inr d)"

text \<open>The handler a request is dispatched to, and how its promise settles or its call returns.\<close>

definition handler :: "chrome \<Rightarrow> request \<Rightarrow> world \<Rightarrow> settled option" where
  "handler c req w =
     (if req_action req = ''SHOW_NOTIFICATION'' then Some (showNotification c (req_id req) (req_options req) w)
      else if req_action req = ''UPDATE_NOTIFICATION'' then Some (updateNotification c (req_id req) (req_options req) w)
      else if req_action req = ''CLEAR_NOTIFICATION'' then Some (clearNotification c (req_id req) w)
      else if req_action req = ''CLEAR_ALL_NOTIFICATIONS'' then Some (clearAllNotifications c w)
      else if req_action req = ''GET_ACTIVE_NOTIFICATIONS'' then Some (Fulfilled w)
      else if req_action req = ''SCHEDULE_TASK'' then Some (scheduleBackgroundTask c (req_task req) w)
      else if req_action req = ''GET_EXTENSION_STATUS''
        then Some (case manifest_version c of Inl e \<Rightarrow> Rejected e w | Inr v \<Rightarrow> Fulfilled w)
      else None)"

subsection \<open>Lifecycle events\<close>

text \<open>The listener of \<^verbatim>\<open>chrome.runtime.onInstalled\<close> next to the coordinator.\<close>

definition onInstalled_coordinator :: "chrome \<Rightarrow> string \<Rightarrow> world \<Rightarrow> world" where
  "onInstalled_coordinator c reason w =
     (let w0 = say (ConsoleLog (''[Extension] Installed/Updated '' @ reason)) w
      in if reason = ''install''
         then w0\<lparr>opened := opened w0 @ [''chrome://extensions/?options='' @ extension_id c]\<rparr>
         else w0)"

definition default_settings :: "(string \<times> json) list" where
  "default_settings =
     [(''extensionEnabled'', JBool True),
      (''autoRefresh'', JBool False),
      (''refreshInterval'', JNum 5000),
      (''notifications'', JBool True),
      (''theme'', JStr ''light'')]"

text \<open>
  The listener of \<^verbatim>\<open>chrome.runtime.onInstalled\<close> that sets the default configuration;
  \<open>Inl\<close> is \<^verbatim>\<open>getManifest\<close> throwing in the update branch.
\<close>

definition onInstalled :: "chrome \<Rightarrow> string \<Rightarrow> world \<Rightarrow> js_error + world" where
  "onInstalled c reason w =
     (if reason = ''install''
      then (let w1 = storage_set c default_settings w
            in Inr (w1\<lparr>opened := opened w1 @ [''chrome-extension://'' @ extension_id c @ ''/welcome.html'']\<rparr>))
      else if reason = ''update''
      then (case manifest_version c of
              Inl e \<Rightarrow> Inl e
            | Inr v \<Rightarrow> Inr (say (ConsoleLog (''Extension updated to version '' @ v)) w))
      else Inr w)"

subsection \<open>Concrete states and platforms\<close>

text \<open>
  The state when the service worker has just been loaded, and a platform without faults. Its
  \<open>to_number\<close> makes \<^verbatim>\<open>NaN\<close> of every string, array and object, as it is of the
  date strings and the objects it is applied to below; its \<open>toISOString\<close> gives one fixed
  date string.
\<close>

definition fresh :: world where
  "fresh = \<lparr>activeNotifications = [], scheduledTasks = Map.empty, shown = Map.empty,
            timers = [], next_handle = 1, storage = [], storage_sets = [], tabs = [],
            outbox = [], opened = [], clock = 1000, console = []\<rparr>"

definition reliable :: chrome where
  "reliable = \<lparr>create_fault = (\<lambda>i. None), update_fault = (\<lambda>i. None), clear_fault = (\<lambda>i. None),
               storage_read = ReadOk, storage_writes = True,
               manifest_version = Inr ''1.0.0'', extension_id = ''flexportal'',
               to_number = (\<lambda>v. None), toISOString = (\<lambda>t. ''2026-01-09T19:23:02.000Z'')\<rparr>"

text \<open>A platform that rejects every \<^verbatim>\<open>chrome.notifications.create\<close>.\<close>

definition create_refused :: chrome where
  "create_refused = reliable\<lparr>create_fault := (\<lambda>i. Some (Error ''Some of the required properties are missing''))\<rparr>"

text \<open>A platform that rejects \<^verbatim>\<open>chrome.notifications.clear\<close> for the id \<^verbatim>\<open>a\<close>.\<close>

definition clear_refused :: chrome where
  "clear_refused = reliable\<lparr>clear_fault := (\<lambda>i. if i = ''a'' then Some (Error ''clear failed'') else None)\<rparr>"

definition show_request :: request where
  "show_request = \<lparr>req_action = ''SHOW_NOTIFICATION'', req_id = ''n1'', req_options = Map.empty, req_task = None\<rparr>"

text \<open>The state after the notifications \<^verbatim>\<open>a\<close> and \<^verbatim>\<open>b\<close> have been shown.\<close>

definition two_shown :: world where
  "two_shown = state_of (showNotification reliable ''b'' Map.empty
                 (state_of (showNotification reliable ''a'' Map.empty fresh)))"

text \<open>
  The state after \<^verbatim>\<open>a\<close>, \<^verbatim>\<open>b\<close> and \<^verbatim>\<open>c\<close> have been shown, and a platform that
  rejects \<^verbatim>\<open>chrome.notifications.clear\<close> for \<^verbatim>\<open>b\<close>.
\<close>

definition three_shown :: world where
  "three_shown = state_of (showNotification reliable ''c'' Map.empty two_shown)"

definition clear_refused_b :: chrome where
  "clear_refused_b = reliable\<lparr>clear_fault := (\<lambda>i. if i = ''b'' then Some (Error ''clear failed'') else None)\<rparr>"

definition clear_all_request :: request where
  "clear_all_request = \<lparr>req_action = ''CLEAR_ALL_NOTIFICATIONS'', req_id = ''all'', req_options = Map.empty,
                         req_task = None\<rparr>"



definition sync_task :: task where
  "sync_task = \<lparr>task_id = ''auto-sync'', task_action = ''SYNC_DATA'', task_interval = Some 300000,
                task_data = None\<rparr>"


subsection \<open>Call sequences and invariants of the scheduler\<close>

text \<open>
  Calls that each run to their end before the next starts: scheduling, cancelling, and a
  firing of a timer.
\<close>

datatype scheduler_call = Schedule chrome "task option" | Cancel string | Fire chrome nat

fun run_calls :: "scheduler_call list \<Rightarrow> world \<Rightarrow> world" where
  "run_calls [] w = w"
| "run_calls (Schedule c topt # rest) w = run_calls rest (state_of (scheduleBackgroundTask c topt w))"
| "run_calls (Cancel i # rest) w = run_calls rest (snd (cancelScheduledTask i w))"
| "run_calls (Fire c h # rest) w = run_calls rest (state_of (timer_fires c h w))"

text \<open>The live timers whose closure runs the task \<open>i\<close>.\<close>

definition timers_of :: "string \<Rightarrow> world \<Rightarrow> (nat \<times> timer) list" where
  "timers_of i w = filter (\<lambda>(h, tm). timer_task tm = i) (timers w)"

text \<open>
  Every live timer has a handle the platform has handed out, no two share one, and each is the
  timer recorded in \<^verbatim>\<open>scheduledTasks\<close> under its task id.
\<close>

definition timers_tracked :: "world \<Rightarrow> bool" where
  "timers_tracked w =
     (distinct (map fst (timers w)) \<and>
      (\<forall>(h, tm)\<in>set (timers w).
          h < next_handle w \<and> (\<exists>r. scheduledTasks w (timer_task tm) = Some r \<and> intervalId r = h)))"


text \<open>The action names the \<^verbatim>\<open>switch\<close> of the message listener has a case for.\<close>

definition known_actions :: "string list" where
  "known_actions = [''SHOW_NOTIFICATION'', ''UPDATE_NOTIFICATION'', ''CLEAR_NOTIFICATION'',
                    ''CLEAR_ALL_NOTIFICATIONS'', ''GET_ACTIVE_NOTIFICATIONS'', ''SCHEDULE_TASK'',
                    ''GET_EXTENSION_STATUS'']"

subsection \<open>More concrete states, tasks and requests\<close>

text \<open>
  A storage with an old entry, a recent one, one whose timestamp is 0, one stamped with a date
  string and a primitive; the clock reads 1000.
\<close>

definition cache_world :: world where
  "cache_world = fresh\<lparr>storage := [(''old'', JObj [(''timestamp'', JNum 5)]),
                                     (''recent'', JObj [(''timestamp'', JNum 999)]),
                                     (''epoch'', JObj [(''timestamp'', JNum 0)]),
                                     (''report'', JObj [(''timestamp'', JStr ''1970-01-01T00:00:00.005Z'')]),
                                     (''theme'', JStr ''light'')]\<rparr>"

text \<open>The same storage with a \<^verbatim>\<open>null\<close> stored under one more key.\<close>

definition null_world :: world where
  "null_world = cache_world\<lparr>storage := storage cache_world @ [(''draft'', JNull)]\<rparr>"

text \<open>The daily cleanup as \<^verbatim>\<open>initializeBackgroundTasks\<close> schedules it, and variants.\<close>

definition cleanup_task :: task where
  "cleanup_task = \<lparr>task_id = ''daily-cleanup'', task_action = ''CLEANUP_CACHE'',
                   task_interval = Some 86400000,
                   task_data = Some [(''maxAge'', JNum 604800000)]\<rparr>"

definition cache_task :: task where
  "cache_task = \<lparr>task_id = ''daily-cleanup'', task_action = ''CLEANUP_CACHE'',
                 task_interval = Some 86400000,
                 task_data = Some [(''maxAge'', JNum 100)]\<rparr>"


text \<open>
  Two calls of \<^verbatim>\<open>scheduleBackgroundTask\<close> for the daily cleanup, the second entered while
  the first is suspended at \<^verbatim>\<open>await executeTask()\<close>: both pass the check of
  \<^verbatim>\<open>scheduledTasks.has(id)\<close> before either has armed its timer, then each is resumed.
\<close>

definition overlapped :: world where
  "overlapped =
     schedule_resume cleanup_task
       (state_of (executeTask reliable ''daily-cleanup'' ''CLEANUP_CACHE'' (data_of cleanup_task)
          (schedule_resume cleanup_task
             (state_of (executeTask reliable ''daily-cleanup'' ''CLEANUP_CACHE'' (data_of cleanup_task)
                (schedule_enter cleanup_task (schedule_enter cleanup_task fresh)))))))"

definition no_task_request :: request where
  "no_task_request = \<lparr>req_action = ''SCHEDULE_TASK'', req_id = '''', req_options = Map.empty, req_task = None\<rparr>"

definition ping_request :: request where
  "ping_request = \<lparr>req_action = ''PING'', req_id = '''', req_options = Map.empty, req_task = None\<rparr>"

definition no_manifest :: chrome where
  "no_manifest = reliable\<lparr>manifest_version := Inl (Error ''Extension context invalidated.'')\<rparr>"

text \<open>The state after the first install on the platform without faults.\<close>

definition installed :: world where
  "installed = (case onInstalled reliable ''install'' fresh of Inr w \<Rightarrow> w | Inl e \<Rightarrow> fresh)"


section \<open>The notification registry\<close>

lemma clear_each_all:
  "\<forall>i\<in>set ids. clear_fault c i = None \<Longrightarrow>
   clear_each c ids w = Fulfilled (w\<lparr>shown := shown w |` (- set ids)\<rparr>)"
proof (induction ids arbitrary: w)
  case Nil
  then show ?case by simp
next
  case (Cons i ids)
  have "(shown w)(i := None) |` (- set ids) = shown w |` (- set (i # ids))"
    by (auto simp: restrict_map_def fun_eq_iff)
  with Cons show ?case
    by (simp add: notifications_clear_def)
qed

lemma clear_each_stops:
  "\<forall>i\<in>set pre. clear_fault c i = None \<Longrightarrow> clear_fault c i = Some e \<Longrightarrow>
   clear_each c (pre @ i # post) w = Rejected e (w\<lparr>shown := shown w |` (- set pre)\<rparr>)"
proof (induction pre arbitrary: w)
  case Nil
  then show ?case by (simp add: notifications_clear_def)
next
  case (Cons j pre)
  have "(shown w)(j := None) |` (- set pre) = shown w |` (- set (j # pre))"
    by (auto simp: restrict_map_def fun_eq_iff)
  with Cons show ?case
    by (simp add: notifications_clear_def)
qed

text \<open>
  What \<^verbatim>\<open>clearAllNotifications\<close> does. When every platform clear call succeeds, every
  tracked id is cleared on the platform and the registry is emptied. When the clear call of an
  id fails, the ids before it have been cleared on the platform, the ids from it on have not,
  no registry entry is removed, and the error is logged, not thrown.
\<close>

lemma clearAll_outcomes:
  "((\<forall>i\<in>fst ` set (activeNotifications w). clear_fault c i = None) \<longrightarrow>
      clearAllNotifications c w =
        Fulfilled (say (ConsoleLog ''[Notification] All notifications cleared'')
          (w\<lparr>shown := shown w |` (- fst ` set (activeNotifications w)), activeNotifications := []\<rparr>))) \<and>
   (\<forall>pre i n post e.
      activeNotifications w = pre @ (i, n) # post \<and>
      (\<forall>j\<in>fst ` set pre. clear_fault c j = None) \<and> clear_fault c i = Some e \<longrightarrow>
      clearAllNotifications c w =
        Fulfilled (say (ConsoleError ''[Notification Error] Failed to clear all notifications:'' e)
          (w\<lparr>shown := shown w |` (- fst ` set pre)\<rparr>)))"
proof (intro conjI impI allI)
  assume ok: "\<forall>i\<in>fst ` set (activeNotifications w). clear_fault c i = None"
  then have "clear_each c (map fst (activeNotifications w)) w =
      Fulfilled (w\<lparr>shown := shown w |` (- set (map fst (activeNotifications w)))\<rparr>)"
    by (intro clear_each_all) simp
  then show "clearAllNotifications c w =
        Fulfilled (say (ConsoleLog ''[Notification] All notifications cleared'')
          (w\<lparr>shown := shown w |` (- fst ` set (activeNotifications w)), activeNotifications := []\<rparr>))"
    by (simp add: clearAllNotifications_def say_def)
next
  fix pre i n post e
  assume h: "activeNotifications w = pre @ (i, n) # post \<and>
      (\<forall>j\<in>fst ` set pre. clear_fault c j = None) \<and> clear_fault c i = Some e"
  then have "clear_each c (map fst pre @ i # map fst post) w =
      Rejected e (w\<lparr>shown := shown w |` (- set (map fst pre))\<rparr>)"
    by (intro clear_each_stops) simp_all
  with h show "clearAllNotifications c w =
        Fulfilled (say (ConsoleError ''[Notification Error] Failed to clear all notifications:'' e)
          (w\<lparr>shown := shown w |` (- fst ` set pre)\<rparr>))"
    by (simp add: clearAllNotifications_def say_def)
qed

lemmas eval_notifications =
  showNotification_def updateNotification_def clearNotification_def clearAllNotifications_def
  notifications_create_def notifications_update_def notifications_clear_def
  onMessage_def route_def say_def

text \<open>
  C1. When the platform's create call fails, the failure should be reported to the sender of
  \<^verbatim>\<open>SHOW_NOTIFICATION\<close> and no record stored. On a platform that rejects the create call,
  \<^verbatim>\<open>showNotification\<close> catches the rejection and logs it, so its promise is fulfilled and
  the listener replies \<^verbatim>\<open>{ success: true }\<close>; the registry stays empty.
\<close>

theorem show_reports_success_on_failure:
  "map_sum id sent (onMessage create_refused show_request fresh) = Inr [Success] \<and>
   map_sum id (activeNotifications \<circ> after) (onMessage create_refused show_request fresh) = Inr []"
  by (simp add: onMessage_def route_def showNotification_def notifications_create_def
      create_refused_def reliable_def show_request_def fresh_def say_def)

text \<open>
  C4. A failure of the platform's clear call for one id should not stop the sweep over the
  others. With \<^verbatim>\<open>a\<close>, \<^verbatim>\<open>b\<close> and \<^verbatim>\<open>c\<close> tracked and the clear call of \<^verbatim>\<open>b\<close>
  rejected, the loop ends at \<^verbatim>\<open>b\<close>: \<^verbatim>\<open>c\<close> is never cleared, \<^verbatim>\<open>a\<close> is gone from the
  platform and still in the registry with the other two, and the sender of
  \<^verbatim>\<open>CLEAR_ALL_NOTIFICATIONS\<close> is told \<^verbatim>\<open>{ success: true }\<close>.
\<close>

theorem clearAll_stops_at_failure:
  "map fst (activeNotifications (state_of (clearAllNotifications clear_refused_b three_shown)))
     = [''a'', ''b'', ''c''] \<and>
   shown (state_of (clearAllNotifications clear_refused_b three_shown)) ''a'' = None \<and>
   shown (state_of (clearAllNotifications clear_refused_b three_shown)) ''b'' \<noteq> None \<and>
   shown (state_of (clearAllNotifications clear_refused_b three_shown)) ''c'' \<noteq> None \<and>
   map_sum id sent (onMessage clear_refused_b clear_all_request three_shown) = Inr [Success]"
  by (simp add: eval_notifications three_shown_def two_shown_def clear_refused_b_def reliable_def
      clear_all_request_def fresh_def)

text \<open>
  C7. For an id absent from the registry, \<^verbatim>\<open>updateNotification\<close> is fulfilled (it does not
  throw) in the state it started from with one warning added to the console: the registry and
  the platform's notifications are unchanged.
\<close>

theorem updateNotification_absent:
  assumes "ident \<notin> fst ` set (activeNotifications w)"
  shows "updateNotification c ident opts w =
           Fulfilled (w\<lparr>console := console w @ [ConsoleWarn (''[Notification] Notification '' @ ident @ '' not found'')]\<rparr>)"
proof -
  from assms have "map_of (activeNotifications w) ident = None"
    by (simp add: map_of_eq_None_iff)
  then show ?thesis by (simp add: updateNotification_def say_def)
qed

theorem updateNotification_absent_witness:
  "''n1'' \<notin> fst ` set (activeNotifications fresh) \<and>
   updateNotification reliable ''n1'' Map.empty fresh =
     Fulfilled (fresh\<lparr>console := [ConsoleWarn ''[Notification] Notification n1 not found'']\<rparr>)"
  using updateNotification_absent [of "''n1''" fresh reliable Map.empty]
  by (simp add: fresh_def)

text \<open>
  C8, as the code has it. When the platform's clear call for the id succeeds,
  \<^verbatim>\<open>clearNotification\<close> removes the id from the platform and from the registry and logs
  it, so \<^verbatim>\<open>showNotification\<close> followed by \<^verbatim>\<open>clearNotification\<close> leaves no record for the
  id. When the clear call fails, \<^verbatim>\<open>clearNotification\<close> changes nothing but the console,
  where it logs the error: a record of the id stays. It never throws, and on an id absent from
  the registry it leaves the registry as it was.
\<close>

theorem show_then_clear:
  "(clear_fault c ident = None \<longrightarrow>
      clearNotification c ident w =
        Fulfilled (say (ConsoleLog (''[Notification] Cleared: '' @ ident))
          (w\<lparr>shown := (shown w)(ident := None),
             activeNotifications := AList.delete ident (activeNotifications w)\<rparr>)) \<and>
      ident \<notin> fst ` set (activeNotifications
        (state_of (clearNotification c ident (state_of (showNotification c ident opts w)))))) \<and>
   (\<forall>e. clear_fault c ident = Some e \<longrightarrow>
      clearNotification c ident w =
        Fulfilled (say (ConsoleError (''[Notification Error] Failed to clear notification '' @ ident) e) w)) \<and>
   \<not> rejected (clearNotification c ident w) \<and>
   (ident \<notin> fst ` set (activeNotifications w) \<longrightarrow>
      activeNotifications (state_of (clearNotification c ident w)) = activeNotifications w)"
  by (auto simp: clearNotification_def notifications_clear_def say_def AList.delete_notin_dom
      split: option.splits)

theorem show_then_clear_witness:
  "clear_fault reliable ''a'' = None \<and>
   map fst (activeNotifications two_shown) = [''a'', ''b''] \<and>
   map fst (activeNotifications (state_of (clearNotification reliable ''a'' two_shown))) = [''b''] \<and>
   ''n1'' \<notin> fst ` set (activeNotifications
        (state_of (clearNotification reliable ''n1'' (state_of (showNotification reliable ''n1'' Map.empty fresh))))) \<and>
   clear_fault clear_refused ''a'' = Some (Error ''clear failed'') \<and>
   clearNotification clear_refused ''a'' two_shown =
     Fulfilled (two_shown\<lparr>console := console two_shown @
        [ConsoleError ''[Notification Error] Failed to clear notification a'' (Error ''clear failed'')]\<rparr>) \<and>
   activeNotifications (state_of (clearNotification reliable ''n1'' fresh)) = activeNotifications fresh"
proof -
  have ok: "clear_fault reliable ''a'' = None" "clear_fault reliable ''n1'' = None"
    by (simp_all add: reliable_def)
  have bad: "clear_fault clear_refused ''a'' = Some (Error ''clear failed'')"
    by (simp add: clear_refused_def reliable_def)
  have reg: "map fst (activeNotifications two_shown) = [''a'', ''b'']"
    by (simp add: two_shown_def eval_notifications reliable_def fresh_def)
  from show_then_clear [of reliable "''a''" two_shown, THEN conjunct1] ok(1)
  have "clearNotification reliable ''a'' two_shown =
      Fulfilled (say (ConsoleLog (''[Notification] Cleared: '' @ ''a''))
          (two_shown\<lparr>shown := (shown two_shown)(''a'' := None),
             activeNotifications := AList.delete ''a'' (activeNotifications two_shown)\<rparr>))"
    by blast
  then have first: "map fst (activeNotifications (state_of (clearNotification reliable ''a'' two_shown))) = [''b'']"
    using reg by (simp add: say_def AList.delete_keys)
  from show_then_clear [of reliable "''n1''" fresh Map.empty, THEN conjunct1] ok(2)
  have second: "''n1'' \<notin> fst ` set (activeNotifications
        (state_of (clearNotification reliable ''n1'' (state_of (showNotification reliable ''n1'' Map.empty fresh)))))"
    by blast
  from show_then_clear [of clear_refused "''a''" two_shown, THEN conjunct2, THEN conjunct1] bad
  have third: "clearNotification clear_refused ''a'' two_shown =
     Fulfilled (two_shown\<lparr>console := console two_shown @
        [ConsoleError ''[Notification Error] Failed to clear notification a'' (Error ''clear failed'')]\<rparr>)"
    by (simp add: say_def)
  from show_then_clear [of reliable "''n1''" fresh, THEN conjunct2, THEN conjunct2, THEN conjunct2]
  have fourth: "activeNotifications (state_of (clearNotification reliable ''n1'' fresh)) = activeNotifications fresh"
    by (simp add: fresh_def)
  from ok(1) reg first second bad third fourth show ?thesis by simp
qed

text \<open>
  C8 as stated fails: when the platform rejects the clear call, the record made by
  \<^verbatim>\<open>showNotification\<close> is still in the registry after \<^verbatim>\<open>clearNotification\<close>.
\<close>

theorem show_then_clear_counterexample:
  "''a'' \<in> fst ` set (activeNotifications
      (state_of (clearNotification clear_refused ''a''
         (state_of (showNotification clear_refused ''a'' Map.empty fresh)))))"
  by (simp add: clearNotification_def notifications_clear_def showNotification_def
      notifications_create_def clear_refused_def reliable_def fresh_def say_def)

section \<open>The task scheduler\<close>

lemma say_frame [simp]:
  "timers (say x w) = timers w" "scheduledTasks (say x w) = scheduledTasks w"
  "next_handle (say x w) = next_handle w" "storage (say x w) = storage w"
  "storage_sets (say x w) = storage_sets w" "clock (say x w) = clock w"
  "console (say x w) = console w @ [x]"
  by (simp_all add: say_def)

lemma broadcast_frame [simp]:
  "timers (broadcast m w) = timers w" "scheduledTasks (broadcast m w) = scheduledTasks w"
  "next_handle (broadcast m w) = next_handle w" "storage (broadcast m w) = storage w"
  "storage_sets (broadcast m w) = storage_sets w" "console (broadcast m w) = console w"
  by (simp_all add: broadcast_def)

lemma storage_set_frame [simp]:
  "timers (storage_set c xs w) = timers w" "scheduledTasks (storage_set c xs w) = scheduledTasks w"
  "next_handle (storage_set c xs w) = next_handle w" "console (storage_set c xs w) = console w"
  "storage_sets (storage_set c xs w) = storage_sets w @ [xs]"
  by (simp_all add: storage_set_def)

lemma storage_remove_frame [simp]:
  "timers (storage_remove c ks w) = timers w" "scheduledTasks (storage_remove c ks w) = scheduledTasks w"
  "next_handle (storage_remove c ks w) = next_handle w" "console (storage_remove c ks w) = console w"
  "storage_sets (storage_remove c ks w) = storage_sets w"
  "storage (storage_remove c ks w) =
     (if storage_writes c then filter (\<lambda>(k, v). k \<notin> set ks) (storage w) else storage w)"
  by (simp_all add: storage_remove_def)

lemma perform_frame:
  "timers (state_of (performBackgroundTask c i a d w)) = timers w \<and>
   scheduledTasks (state_of (performBackgroundTask c i a d w)) = scheduledTasks w \<and>
   next_handle (state_of (performBackgroundTask c i a d w)) = next_handle w"
  by (simp add: performBackgroundTask_def syncData_def checkPortalStatus_def cleanupCache_def
      refreshAuthToken_def Let_def split: option.splits storage_read.splits)

lemma executeTask_frame:
  "timers (state_of (executeTask c i a d w)) = timers w \<and>
   scheduledTasks (state_of (executeTask c i a d w)) = scheduledTasks w \<and>
   next_handle (state_of (executeTask c i a d w)) = next_handle w"
  using perform_frame [of c i a d w]
  by (cases "performBackgroundTask c i a d w") (simp_all add: executeTask_def)

lemma executeTask_not_rejected: "executeTask c i a d w \<noteq> Rejected e w'"
  by (simp add: executeTask_def split: settled.splits)

lemma executeTask_settles:
  "executeTask c i a d w = Fulfilled (state_of (executeTask c i a d w)) \<or>
   executeTask c i a d w = Pending (state_of (executeTask c i a d w))"
  by (cases "executeTask c i a d w") (simp_all add: executeTask_not_rejected)

lemma schedule_enter_next [simp]: "next_handle (schedule_enter t w) = next_handle w"
  by (simp add: schedule_enter_def clearInterval_def Let_def split: option.splits)

lemma console_resume [simp]: "console (schedule_resume t w) = console w"
  by (simp add: schedule_resume_def setInterval_def)

lemma resume_arms:
  assumes "0 < interval_of t"
  shows "scheduledTasks (schedule_resume t w) (task_id t) =
           Some \<lparr>action = task_action t, interval = interval_of t, data = data_of t,
                 intervalId = next_handle w\<rparr>"
    and "(next_handle w, \<lparr>timer_task = task_id t, timer_action = task_action t,
                           timer_data = data_of t, period = interval_of t\<rparr>)
           \<in> set (timers (schedule_resume t w))"
  using assms by (simp_all add: schedule_resume_def setInterval_def)



text \<open>
  When the immediate execution never settles, the call never gets past its \<^verbatim>\<open>await\<close>: no
  task is recorded under the id and no timer is armed for it.
\<close>

lemma pending_execution_never_arms:
  assumes "performBackgroundTask c (task_id t) (task_action t) (data_of t) (schedule_enter t w) = Pending w1"
  shows "scheduleBackgroundTask c (Some t) w = Pending w1 \<and> scheduledTasks w1 (task_id t) = None \<and>
         timers w1 = timers (schedule_enter t w)"
proof -
  have "scheduledTasks (schedule_enter t w) (task_id t) = None"
    by (simp add: schedule_enter_def clearInterval_def Let_def split: option.splits)
  with assms perform_frame [of c "task_id t" "task_action t" "data_of t" "schedule_enter t w"]
  show ?thesis
    by (simp add: scheduleBackgroundTask_def executeTask_def)
qed


lemmas eval_scheduler =
  scheduleBackgroundTask_def executeTask_def performBackgroundTask_def syncData_def
  checkPortalStatus_def cleanupCache_def refreshAuthToken_def schedule_enter_def
  schedule_resume_def setInterval_def clearInterval_def interval_of_def data_of_def
  storage_set_def storage_remove_def broadcast_def say_def timer_fires_def
  cancelScheduledTask_def stale_def effective_maxAge_def spread_def


lemma remove_stale_keys:
  assumes "distinct (map fst xs)"
  shows "filter (\<lambda>(k, v). k \<notin> set (map fst (filter P xs))) xs = filter (\<lambda>x. \<not> P x) xs"
proof (rule filter_cong [OF refl])
  fix x assume x: "x \<in> set xs"
  obtain k v where kv: "x = (k, v)" by (cases x)
  have "k \<in> fst ` set (filter P xs) \<longleftrightarrow> P (k, v)"
  proof
    assume "k \<in> fst ` set (filter P xs)"
    then obtain v' where "(k, v') \<in> set xs" "P (k, v')" by auto
    with assms x kv show "P (k, v)" by (metis eq_key_imp_eq_value)
  next
    assume "P (k, v)"
    with x kv show "k \<in> fst ` set (filter P xs)" by force
  qed
  with kv show "(case x of (k, v) \<Rightarrow> k \<notin> set (map fst (filter P xs))) = (\<not> P x)"
    by simp
qed

lemma cleanupCache_storage:
  assumes "storage_read c = ReadOk" "storage_writes c" "JNull \<notin> snd ` set (storage w)"
    "distinct (map fst (storage w))"
  shows "cleanupCache c d w = Fulfilled (state_of (cleanupCache c d w)) \<and>
         storage (state_of (cleanupCache c d w)) =
           filter (\<lambda>(k, v). \<not> stale c (clock w) (effective_maxAge d) v) (storage w)"
proof -
  let ?P = "\<lambda>(k, v). stale c (clock w) (effective_maxAge d) v"
  have eq: "filter (\<lambda>(k, v). \<not> stale c (clock w) (effective_maxAge d) v) (storage w) =
      filter (\<lambda>x. \<not> ?P x) (storage w)"
    by (rule filter_cong) auto
  show ?thesis
  proof (cases "filter ?P (storage w) = []")
    case True
    then have "filter (\<lambda>x. \<not> ?P x) (storage w) = storage w"
      by (simp add: filter_empty_conv)
    with True assms(1,3) show ?thesis
      unfolding eq by (simp add: cleanupCache_def Let_def)
  next
    case False
    with assms(1,2,3) remove_stale_keys [OF assms(4), of ?P] show ?thesis
      unfolding eq by (simp add: cleanupCache_def Let_def)
  qed
qed

lemma executeTask_cleanup_storage:
  assumes "storage_read c = ReadOk" "storage_writes c" "JNull \<notin> snd ` set (storage w)"
    "distinct (map fst (storage w))"
  shows "executeTask c i ''CLEANUP_CACHE'' d w = Fulfilled (state_of (executeTask c i ''CLEANUP_CACHE'' d w)) \<and>
         storage (state_of (executeTask c i ''CLEANUP_CACHE'' d w)) =
           filter (\<lambda>(k, v). \<not> stale c (clock w) (effective_maxAge d) v) (storage w)"
proof -
  let ?w0 = "say (ConsoleLog (''[Task Executing] '' @ i @ '' - '' @ ''CLEANUP_CACHE'')) w"
  have "storage_read c = ReadOk" "storage_writes c" "JNull \<notin> snd ` set (storage ?w0)"
    "distinct (map fst (storage ?w0))"
    using assms by simp_all
  from cleanupCache_storage [OF this, of d]
  have st: "cleanupCache c d ?w0 = Fulfilled (state_of (cleanupCache c d ?w0))"
    "storage (state_of (cleanupCache c d ?w0)) =
      filter (\<lambda>(k, v). \<not> stale c (clock w) (effective_maxAge d) v) (storage w)"
    by simp_all
  show ?thesis
    by (cases "cleanupCache c d ?w0")
      (use st in \<open>simp_all add: executeTask_def performBackgroundTask_def Let_def\<close>)
qed

lemma not_stale_iff:
  "(\<not> stale c now (JNum age) v) =
     (case timestamp_of v of
        None \<Rightarrow> True
      | Some ts \<Rightarrow>
          (case ts of
             JNull \<Rightarrow> True
           | JBool b \<Rightarrow> \<not> b \<or> real_of_int now - age \<le> 1
           | JNum n \<Rightarrow> n = 0 \<or> real_of_int now - age \<le> n
           | JStr s \<Rightarrow> s = [] \<or> (case to_number c ts of None \<Rightarrow> True | Some n \<Rightarrow> real_of_int now - age \<le> n)
           | JArr xs \<Rightarrow> (case to_number c ts of None \<Rightarrow> True | Some n \<Rightarrow> real_of_int now - age \<le> n)
           | JObj ps \<Rightarrow> (case to_number c ts of None \<Rightarrow> True | Some n \<Rightarrow> real_of_int now - age \<le> n)))"
proof (cases "timestamp_of v")
  case None
  then show ?thesis by (simp add: stale_def)
next
  case (Some ts)
  then show ?thesis
    by (cases ts) (auto simp: stale_def split: option.splits)
qed

lemma schedule_enter_storage [simp]:
  "storage (schedule_enter t w) = storage w" "clock (schedule_enter t w) = clock w"
  by (simp_all add: schedule_enter_def clearInterval_def Let_def split: option.splits)

lemma schedule_resume_storage [simp]: "storage (schedule_resume t w) = storage w"
  by (simp add: schedule_resume_def setInterval_def)

text \<open>
  C5, as the code has it. Let the storage read deliver its items, the removal take effect, no
  stored value be \<^verbatim>\<open>null\<close>, and storage hold one value per key. Executing
  \<^verbatim>\<open>CLEANUP_CACHE\<close> with \<^verbatim>\<open>{maxAge: m}\<close> is then fulfilled and removes exactly the entries
  whose value is an object with a truthy \<^verbatim>\<open>timestamp\<close> that, as a number, is older than now
  minus the age; the age is \<open>m\<close>, or seven days when \<open>m\<close> is 0. So an entry is kept when it
  has no timestamp, or the timestamp is \<^verbatim>\<open>null\<close>, \<^verbatim>\<open>false\<close>, 0 or the empty string, or is
  not a number (\<^verbatim>\<open>NaN\<close>), or is not older. Scheduling the task with an interval above 0
  does this at once, is fulfilled, records the task and arms a timer with that interval as its
  period.
\<close>

theorem cleanup_cache_task:
  assumes "storage_read c = ReadOk" "storage_writes c" "JNull \<notin> snd ` set (storage w)"
    "distinct (map fst (storage w))" "map_of d ''maxAge'' = Some (JNum m)"
  shows "executeTask c i ''CLEANUP_CACHE'' d w = Fulfilled (state_of (executeTask c i ''CLEANUP_CACHE'' d w)) \<and>
         storage (state_of (executeTask c i ''CLEANUP_CACHE'' d w)) =
           filter (\<lambda>(k, v).
             case timestamp_of v of
               None \<Rightarrow> True
             | Some ts \<Rightarrow>
                 (case ts of
                    JNull \<Rightarrow> True
                  | JBool b \<Rightarrow> \<not> b \<or> real_of_int (clock w) - (if m = 0 then 604800000 else m) \<le> 1
                  | JNum n \<Rightarrow> n = 0 \<or> real_of_int (clock w) - (if m = 0 then 604800000 else m) \<le> n
                  | JStr s \<Rightarrow> s = [] \<or>
                      (case to_number c ts of
                         None \<Rightarrow> True
                       | Some n \<Rightarrow> real_of_int (clock w) - (if m = 0 then 604800000 else m) \<le> n)
                  | JArr xs \<Rightarrow>
                      (case to_number c ts of
                         None \<Rightarrow> True
                       | Some n \<Rightarrow> real_of_int (clock w) - (if m = 0 then 604800000 else m) \<le> n)
                  | JObj ps \<Rightarrow>
                      (case to_number c ts of
                         None \<Rightarrow> True
                       | Some n \<Rightarrow> real_of_int (clock w) - (if m = 0 then 604800000 else m) \<le> n)))
             (storage w) \<and>
         (\<forall>t. task_action t = ''CLEANUP_CACHE'' \<and> task_data t = Some d \<and> 0 < interval_of t \<longrightarrow>
            (\<exists>w'. scheduleBackgroundTask c (Some t) w = Fulfilled w' \<and>
                  storage w' = storage (state_of (executeTask c (task_id t) ''CLEANUP_CACHE'' d w)) \<and>
                  scheduledTasks w' (task_id t) =
                    Some \<lparr>action = ''CLEANUP_CACHE'', interval = interval_of t, data = d,
                          intervalId = next_handle w\<rparr> \<and>
                  (next_handle w, \<lparr>timer_task = task_id t, timer_action = ''CLEANUP_CACHE'',
                                   timer_data = d, period = interval_of t\<rparr>) \<in> set (timers w')))"
proof -
  let ?age = "if m = 0 then 604800000 else m"
  let ?keep = "\<lambda>(k :: string, v).
             case timestamp_of v of
               None \<Rightarrow> True
             | Some ts \<Rightarrow>
                 (case ts of
                    JNull \<Rightarrow> True
                  | JBool b \<Rightarrow> \<not> b \<or> real_of_int (clock w) - ?age \<le> 1
                  | JNum n \<Rightarrow> n = 0 \<or> real_of_int (clock w) - ?age \<le> n
                  | JStr s \<Rightarrow> s = [] \<or>
                      (case to_number c ts of None \<Rightarrow> True | Some n \<Rightarrow> real_of_int (clock w) - ?age \<le> n)
                  | JArr xs \<Rightarrow>
                      (case to_number c ts of None \<Rightarrow> True | Some n \<Rightarrow> real_of_int (clock w) - ?age \<le> n)
                  | JObj ps \<Rightarrow>
                      (case to_number c ts of None \<Rightarrow> True | Some n \<Rightarrow> real_of_int (clock w) - ?age \<le> n))"
  have age: "effective_maxAge d = JNum ?age"
    using assms(5) by (simp add: effective_maxAge_def)
  have keep: "filter (\<lambda>(k, v). \<not> stale c (clock w) (effective_maxAge d) v) (storage w) =
      filter ?keep (storage w)"
    unfolding age
    by (intro filter_cong refl) (simp add: not_stale_iff split: prod.splits)
  have first: "executeTask c i ''CLEANUP_CACHE'' d w = Fulfilled (state_of (executeTask c i ''CLEANUP_CACHE'' d w)) \<and>
      storage (state_of (executeTask c i ''CLEANUP_CACHE'' d w)) = filter ?keep (storage w)" for i
    using executeTask_cleanup_storage [OF assms(1-4), of i d] keep by simp
  have second: "\<exists>w'. scheduleBackgroundTask c (Some t) w = Fulfilled w' \<and>
                  storage w' = storage (state_of (executeTask c (task_id t) ''CLEANUP_CACHE'' d w)) \<and>
                  scheduledTasks w' (task_id t) =
                    Some \<lparr>action = ''CLEANUP_CACHE'', interval = interval_of t, data = d,
                          intervalId = next_handle w\<rparr> \<and>
                  (next_handle w, \<lparr>timer_task = task_id t, timer_action = ''CLEANUP_CACHE'',
                                   timer_data = d, period = interval_of t\<rparr>) \<in> set (timers w')"
    if t: "task_action t = ''CLEANUP_CACHE'' \<and> task_data t = Some d \<and> 0 < interval_of t" for t
  proof -
    let ?w1 = "schedule_enter t w"
    let ?w2 = "state_of (executeTask c (task_id t) ''CLEANUP_CACHE'' d ?w1)"
    from t have d: "data_of t = d" by (simp add: data_of_def)
    have h: "storage_read c = ReadOk" "storage_writes c" "JNull \<notin> snd ` set (storage ?w1)"
      "distinct (map fst (storage ?w1))"
      using assms by simp_all
    from executeTask_cleanup_storage [OF h, of "task_id t" d]
      executeTask_cleanup_storage [OF assms(1-4), of "task_id t" d]
    have ex: "executeTask c (task_id t) ''CLEANUP_CACHE'' d ?w1 = Fulfilled ?w2"
      and st: "storage ?w2 = storage (state_of (executeTask c (task_id t) ''CLEANUP_CACHE'' d w))"
      by simp_all
    have run: "scheduleBackgroundTask c (Some t) w = Fulfilled (schedule_resume t ?w2)"
      by (cases "executeTask c (task_id t) ''CLEANUP_CACHE'' d ?w1")
        (use ex t d in \<open>simp_all add: scheduleBackgroundTask_def\<close>)
    have nh: "next_handle ?w2 = next_handle w"
      using executeTask_frame [of c "task_id t" "''CLEANUP_CACHE''" d ?w1] by simp
    from t have pos: "0 < interval_of t" by simp
    from resume_arms [OF pos, of ?w2] t d nh run st show ?thesis by simp
  qed
  from first second show ?thesis by blast
qed

theorem cleanup_cache_task_witness:
  "storage_read reliable = ReadOk \<and> storage_writes reliable \<and>
   JNull \<notin> snd ` set (storage cache_world) \<and> distinct (map fst (storage cache_world)) \<and>
   map fst (storage cache_world) = [''old'', ''recent'', ''epoch'', ''report'', ''theme''] \<and>
   map fst (storage (state_of (executeTask reliable ''daily-cleanup'' ''CLEANUP_CACHE''
      [(''maxAge'', JNum 100)] cache_world))) = [''recent'', ''epoch'', ''report'', ''theme''] \<and>
   \<not> pending (scheduleBackgroundTask reliable (Some cache_task) cache_world) \<and>
   map fst (storage (state_of (scheduleBackgroundTask reliable (Some cache_task) cache_world)))
      = [''recent'', ''epoch'', ''report'', ''theme''] \<and>
   map_option period (map_of (timers (state_of (scheduleBackgroundTask reliable (Some cache_task) cache_world))) 1)
      = Some 86400000"
proof -
  let ?d = "[(''maxAge'', JNum 100)]"
  have h: "storage_read reliable = ReadOk" "storage_writes reliable"
    "JNull \<notin> snd ` set (storage cache_world)" "distinct (map fst (storage cache_world))"
    "map_of ?d ''maxAge'' = Some (JNum 100)"
    by (simp_all add: reliable_def cache_world_def fresh_def)
  note inst = cleanup_cache_task [OF h, of "''daily-cleanup''"]
  have keys: "map fst (storage cache_world) = [''old'', ''recent'', ''epoch'', ''report'', ''theme'']"
    by (simp add: cache_world_def fresh_def)
  from inst have first: "map fst (storage (state_of (executeTask reliable ''daily-cleanup'' ''CLEANUP_CACHE''
      ?d cache_world))) = [''recent'', ''epoch'', ''report'', ''theme'']"
    by (simp add: cache_world_def fresh_def reliable_def)
  have t: "task_action cache_task = ''CLEANUP_CACHE'' \<and> task_data cache_task = Some ?d \<and> 0 < interval_of cache_task"
    by (simp add: cache_task_def interval_of_def)
  from inst [THEN conjunct2, THEN conjunct2, rule_format, OF t] obtain w' where w':
    "scheduleBackgroundTask reliable (Some cache_task) cache_world = Fulfilled w'"
    "storage w' = storage (state_of (executeTask reliable (task_id cache_task) ''CLEANUP_CACHE'' ?d cache_world))"
    "(next_handle cache_world, \<lparr>timer_task = task_id cache_task, timer_action = ''CLEANUP_CACHE'',
         timer_data = ?d, period = interval_of cache_task\<rparr>) \<in> set (timers w')"
    by blast
  have tm: "map_option period (map_of (timers (state_of (scheduleBackgroundTask reliable (Some cache_task) cache_world))) 1)
      = Some 86400000"
    by (simp add: cache_task_def cache_world_def reliable_def fresh_def eval_scheduler)
  from w'(1,2) first have "\<not> pending (scheduleBackgroundTask reliable (Some cache_task) cache_world) \<and>
      map fst (storage (state_of (scheduleBackgroundTask reliable (Some cache_task) cache_world)))
      = [''recent'', ''epoch'', ''report'', ''theme'']"
    by (simp add: cache_task_def)
  with h keys first tm show ?thesis by simp
qed

text \<open>
  C5 as stated fails. With \<^verbatim>\<open>{maxAge: 0}\<close> the entry \<^verbatim>\<open>old\<close>, stamped 5 when the clock
  reads 1000, is older than now minus 0 and is kept, because a \<^verbatim>\<open>maxAge\<close> of 0 is replaced
  by seven days. With \<^verbatim>\<open>{maxAge: 100}\<close> the entry \<^verbatim>\<open>report\<close>, stamped with the date
  string of the same instant, is kept. And with a \<^verbatim>\<open>null\<close> in storage the scheduled
  cleanup never settles: nothing is removed and no timer is armed.
\<close>

theorem cleanup_cache_task_counterexample:
  "map fst (storage (state_of (executeTask reliable ''daily-cleanup'' ''CLEANUP_CACHE''
      [(''maxAge'', JNum 0)] cache_world))) = [''old'', ''recent'', ''epoch'', ''report'', ''theme''] \<and>
   map_of (storage cache_world) ''old'' = Some (JObj [(''timestamp'', JNum 5)]) \<and>
   (5::real) < real_of_int (clock cache_world) - 0 \<and>
   map fst (storage (state_of (executeTask reliable ''daily-cleanup'' ''CLEANUP_CACHE''
      [(''maxAge'', JNum 100)] cache_world))) = [''recent'', ''epoch'', ''report'', ''theme''] \<and>
   map_of (storage cache_world) ''report'' = Some (JObj [(''timestamp'', JStr ''1970-01-01T00:00:00.005Z'')]) \<and>
   scheduleBackgroundTask reliable (Some cache_task) null_world
     = Pending (state_of (scheduleBackgroundTask reliable (Some cache_task) null_world)) \<and>
   storage (state_of (scheduleBackgroundTask reliable (Some cache_task) null_world)) = storage null_world \<and>
   timers (state_of (scheduleBackgroundTask reliable (Some cache_task) null_world)) = []"
  by (simp add: cache_world_def null_world_def cache_task_def reliable_def fresh_def eval_scheduler)




text \<open>
  The state a call of \<^verbatim>\<open>scheduleBackgroundTask\<close> ends in, or stays in: that of the
  execution, with the timer armed if the execution settled.
\<close>

lemma scheduleBackgroundTask_state:
  "state_of (scheduleBackgroundTask c (Some t) w) =
     (let r = executeTask c (task_id t) (task_action t) (data_of t) (schedule_enter t w)
      in if pending r then state_of r else schedule_resume t (state_of r))"
  by (cases "executeTask c (task_id t) (task_action t) (data_of t) (schedule_enter t w)")
    (simp_all add: scheduleBackgroundTask_def executeTask_not_rejected)









lemma same_key_short:
  assumes "distinct (map f xs)" "\<forall>x\<in>set xs. f x = a"
  shows "length xs \<le> 1"
proof (cases xs)
  case Nil
  then show ?thesis by simp
next
  case (Cons x ys)
  with assms have "ys = []" by (cases ys) auto
  with Cons show ?thesis by simp
qed

lemma tracked_one_timer:
  assumes "timers_tracked w"
  shows "length (timers_of i w) \<le> 1"
proof (cases "scheduledTasks w i")
  case None
  with assms have "timers_of i w = []"
    by (auto simp: timers_tracked_def timers_of_def filter_empty_conv)
  then show ?thesis by simp
next
  case (Some r)
  from assms have "distinct (map fst (timers_of i w))"
    by (simp add: timers_tracked_def timers_of_def distinct_map_filter)
  moreover from assms Some have "\<forall>x\<in>set (timers_of i w). fst x = intervalId r"
    by (auto simp: timers_tracked_def timers_of_def)
  ultimately show ?thesis by (rule same_key_short)
qed

lemma untracked_id_no_timer:
  "timers_tracked w \<Longrightarrow> scheduledTasks w i = None \<Longrightarrow> timers_of i w = []"
  by (auto simp: timers_tracked_def timers_of_def filter_empty_conv)

lemma tracked_drop:
  assumes "timers_tracked w" "scheduledTasks w i = Some prior"
  shows "timers_tracked (w\<lparr>timers := AList.delete (intervalId prior) (timers w),
                            scheduledTasks := (scheduledTasks w)(i := None)\<rparr>) \<and>
         filter (\<lambda>(h, tm). timer_task tm = i) (AList.delete (intervalId prior) (timers w)) = []"
proof -
  have other: "timer_task tm \<noteq> i"
    if "(h, tm) \<in> set (AList.delete (intervalId prior) (timers w))" for h tm
  proof
    assume "timer_task tm = i"
    moreover from that have "(h, tm) \<in> set (timers w)" "h \<noteq> intervalId prior"
      by (auto simp: AList.delete_eq)
    ultimately show False using assms by (auto simp: timers_tracked_def)
  qed
  have "distinct (map fst (AList.delete (intervalId prior) (timers w)))"
    using assms(1) by (simp add: timers_tracked_def AList.distinct_delete)
  moreover have "\<forall>(h, tm)\<in>set (AList.delete (intervalId prior) (timers w)).
      h < next_handle w \<and>
      (\<exists>r. ((scheduledTasks w)(i := None)) (timer_task tm) = Some r \<and> intervalId r = h)"
  proof (clarify)
    fix h tm assume in_del: "(h, tm) \<in> set (AList.delete (intervalId prior) (timers w))"
    then have "(h, tm) \<in> set (timers w)" by (auto simp: AList.delete_eq)
    with assms(1) have "h < next_handle w"
      "\<exists>r. scheduledTasks w (timer_task tm) = Some r \<and> intervalId r = h"
      by (auto simp: timers_tracked_def)
    with other [OF in_del]
    show "h < next_handle w \<and>
      (\<exists>r. ((scheduledTasks w)(i := None)) (timer_task tm) = Some r \<and> intervalId r = h)"
      by simp
  qed
  moreover have "filter (\<lambda>(h, tm). timer_task tm = i) (AList.delete (intervalId prior) (timers w)) = []"
    using other by (auto simp: filter_empty_conv)
  ultimately show ?thesis by (simp add: timers_tracked_def)
qed

lemma tracked_say [simp]: "timers_tracked (say x w) = timers_tracked w"
  by (simp add: timers_tracked_def)

lemma timers_of_say [simp]: "timers_of i (say x w) = timers_of i w"
  by (simp add: timers_of_def)

lemma tracked_enter:
  assumes "timers_tracked w"
  shows "timers_tracked (schedule_enter t w) \<and> timers_of (task_id t) (schedule_enter t w) = []"
proof (cases "scheduledTasks w (task_id t)")
  case None
  with assms untracked_id_no_timer [OF assms None] show ?thesis
    by (simp add: schedule_enter_def Let_def)
next
  case (Some prior)
  let ?w0 = "say (ConsoleLog (''[Task Scheduled] '' @ task_id t @ '' - Action: '' @ task_action t)) w"
  from assms Some have "timers_tracked ?w0" "scheduledTasks ?w0 (task_id t) = Some prior"
    by simp_all
  from tracked_drop [OF this] Some show ?thesis
    by (simp add: schedule_enter_def Let_def clearInterval_def timers_of_def)
qed

lemma tracked_execute:
  "timers_tracked (state_of (executeTask c i a d w)) = timers_tracked w"
  "timers_of j (state_of (executeTask c i a d w)) = timers_of j w"
  by (simp_all add: timers_tracked_def timers_of_def executeTask_frame)

lemma tracked_resume:
  assumes "timers_tracked w" "timers_of (task_id t) w = []"
  shows "timers_tracked (schedule_resume t w)"
proof (cases "0 < interval_of t")
  case False
  with assms(1) show ?thesis by (simp add: schedule_resume_def)
next
  case True
  from assms(2) have other: "\<forall>(h, tm)\<in>set (timers w). timer_task tm \<noteq> task_id t"
    by (auto simp: timers_of_def filter_empty_conv)
  from assms(1) have below: "\<forall>h\<in>fst ` set (timers w). h < next_handle w"
    by (auto simp: timers_tracked_def)
  then have "next_handle w \<notin> fst ` set (timers w)" by auto
  with assms(1) have "distinct (map fst (timers w @ [(next_handle w, tm)]))" for tm :: timer
    by (simp add: timers_tracked_def)
  moreover from assms(1) other
  have "\<forall>(h, tm)\<in>set (timers w). h < Suc (next_handle w) \<and>
      (\<exists>r. ((scheduledTasks w)(task_id t \<mapsto> e)) (timer_task tm) = Some r \<and> intervalId r = h)" for e
    by (fastforce simp: timers_tracked_def)
  ultimately show ?thesis using True
    by (simp add: schedule_resume_def setInterval_def timers_tracked_def)
qed

lemma tracked_schedule:
  assumes "timers_tracked w"
  shows "timers_tracked (state_of (scheduleBackgroundTask c topt w))"
proof (cases topt)
  case None
  with assms show ?thesis by (simp add: scheduleBackgroundTask_def)
next
  case (Some t)
  from tracked_enter [OF assms, of t] show ?thesis
    by (simp add: Some scheduleBackgroundTask_state Let_def tracked_resume tracked_execute)
qed

lemma tracked_cancel:
  assumes "timers_tracked w"
  shows "timers_tracked (snd (cancelScheduledTask i w))"
proof (cases "scheduledTasks w i")
  case None
  with assms show ?thesis by (simp add: cancelScheduledTask_def)
next
  case (Some prior)
  from tracked_drop [OF assms Some] Some show ?thesis
    by (simp add: cancelScheduledTask_def clearInterval_def)
qed

lemma tracked_fires: "timers_tracked w \<Longrightarrow> timers_tracked (state_of (timer_fires c h w))"
  by (cases "map_of (timers w) h") (simp_all add: timer_fires_def tracked_execute)

lemma tracked_run: "timers_tracked w \<Longrightarrow> timers_tracked (run_calls calls w)"
  by (induction calls w rule: run_calls.induct)
    (simp_all add: tracked_schedule tracked_cancel tracked_fires)

lemma one_timer_without_overlap: "length (timers_of i (run_calls calls fresh)) \<le> 1"
proof -
  have "timers_tracked fresh" by (simp add: timers_tracked_def fresh_def)
  then show ?thesis by (intro tracked_one_timer tracked_run)
qed

text \<open>
  C2. At most one timer per task id at every point. Calls that do not overlap keep it so
  (\<open>one_timer_without_overlap\<close>). When a second call for the id is entered while the first
  is suspended at \<^verbatim>\<open>await executeTask()\<close>, two timers of the id are live afterwards; the
  record holds the second, and cancelling the task leaves the first running.
\<close>

theorem overlapping_schedules_two_timers:
  "map fst (filter (\<lambda>(h, tm). timer_task tm = ''daily-cleanup'') (timers overlapped)) = [1, 2] \<and>
   map_option intervalId (scheduledTasks overlapped ''daily-cleanup'') = Some 2 \<and>
   map fst (timers (snd (cancelScheduledTask ''daily-cleanup'' overlapped))) = [1]"
  by (simp add: overlapped_def cleanup_task_def reliable_def fresh_def eval_scheduler)

section \<open>The message router\<close>

lemma answer_sent:
  "sent (answer r) =
     (case r of Fulfilled w \<Rightarrow> [Success] | Rejected e w \<Rightarrow> [Failure (message e)] | Pending w \<Rightarrow> [])"
  "keep_open (answer r)"
  by (cases r; simp)+

text \<open>
  C3. No exception leaves the listener, and it sends at most one reply: one, unless the
  promise of the handler never settles. When the handler of the request rejects or throws
  with an error, the reply is \<^verbatim>\<open>{success: false, error: message}\<close>; for an action name
  without a case the reply is \<^verbatim>\<open>{success: false, error: "Unknown action"}\<close>, sent before
  the listener returns.
\<close>

theorem router_reports_failures:
  "\<exists>d. onMessage c req w = Inr d \<and> length (sent d) \<le> 1 \<and>
     ((\<forall>w'. handler c req (say (ConsoleLog (''[Message Received] '' @ req_action req)) w)
                 \<noteq> Some (Pending w')) \<longrightarrow> length (sent d) = 1) \<and>
     (\<forall>e w'. handler c req (say (ConsoleLog (''[Message Received] '' @ req_action req)) w)
                 = Some (Rejected e w') \<longrightarrow> sent d = [Failure (message e)]) \<and>
     (req_action req \<notin> set known_actions \<longrightarrow>
        sent d = [Failure ''Unknown action''] \<and> \<not> keep_open d)"
proof -
  let ?w0 = "say (ConsoleLog (''[Message Received] '' @ req_action req)) w"
  consider (thrown) e where "route c req ?w0 = Inl e" | (returned) d where "route c req ?w0 = Inr d"
    by (cases "route c req ?w0") auto
  then show ?thesis
  proof cases
    case thrown
    then have status: "req_action req = ''GET_EXTENSION_STATUS''" "manifest_version c = Inl e"
      by (auto simp: route_def split: if_splits sum.splits)
    then have "handler c req ?w0 = Some (Rejected e ?w0)"
      by (simp add: handler_def)
    with thrown status show ?thesis
      by (simp add: onMessage_def Let_def known_actions_def)
  next
    case returned
    then have "length (sent d) \<le> 1 \<and>
      ((\<forall>w'. handler c req ?w0 \<noteq> Some (Pending w')) \<longrightarrow> length (sent d) = 1) \<and>
      (\<forall>e w'. handler c req ?w0 = Some (Rejected e w') \<longrightarrow> sent d = [Failure (message e)]) \<and>
      (req_action req \<notin> set known_actions \<longrightarrow> sent d = [Failure ''Unknown action''] \<and> \<not> keep_open d)"
      by (auto simp: route_def handler_def known_actions_def answer_sent
          split: if_splits sum.splits settled.splits)
    with returned show ?thesis
      by (simp add: onMessage_def Let_def)
  qed
qed

theorem router_reports_failures_witness:
  "map_sum id sent (onMessage reliable no_task_request fresh)
     = Inr [Failure ''Cannot destructure property id of task as it is undefined.''] \<and>
   map_sum id sent (onMessage no_manifest (ping_request\<lparr>req_action := ''GET_EXTENSION_STATUS''\<rparr>) fresh)
     = Inr [Failure ''Extension context invalidated.''] \<and>
   map_sum id sent (onMessage reliable ping_request fresh) = Inr [Failure ''Unknown action''] \<and>
   map_sum id keep_open (onMessage reliable ping_request fresh) = Inr False"
proof -
  let ?log = "\<lambda>a. say (ConsoleLog (''[Message Received] '' @ a)) fresh"
  have h1: "handler reliable no_task_request (?log (req_action no_task_request)) =
      Some (Rejected (Error ''Cannot destructure property id of task as it is undefined.'')
              (?log ''SCHEDULE_TASK''))"
    by (simp add: handler_def no_task_request_def scheduleBackgroundTask_def)
  from router_reports_failures [of reliable no_task_request fresh] h1
  have first: "map_sum id sent (onMessage reliable no_task_request fresh)
     = Inr [Failure ''Cannot destructure property id of task as it is undefined.'']"
    by auto
  let ?status = "ping_request\<lparr>req_action := ''GET_EXTENSION_STATUS''\<rparr>"
  have h2: "handler no_manifest ?status (?log (req_action ?status)) =
      Some (Rejected (Error ''Extension context invalidated.'') (?log ''GET_EXTENSION_STATUS''))"
    by (simp add: handler_def ping_request_def no_manifest_def reliable_def)
  from router_reports_failures [of no_manifest ?status fresh] h2
  have second: "map_sum id sent (onMessage no_manifest ?status fresh)
     = Inr [Failure ''Extension context invalidated.'']"
    by auto
  have h3: "req_action ping_request \<notin> set known_actions"
    by (simp add: ping_request_def known_actions_def)
  from router_reports_failures [of reliable ping_request fresh] h3
  have third: "map_sum id sent (onMessage reliable ping_request fresh) = Inr [Failure ''Unknown action''] \<and>
      map_sum id keep_open (onMessage reliable ping_request fresh) = Inr False"
    by auto
  from first second third show ?thesis by simp
qed

section \<open>Lifecycle events\<close>

lemma perform_sets:
  "\<exists>extra. storage_sets (state_of (performBackgroundTask c i a d w)) = storage_sets w @ extra \<and>
     (\<forall>items\<in>set extra. map fst items = [''flexPortalData''])"
proof -
  have "storage_sets (state_of (performBackgroundTask c i a d w)) = storage_sets w \<or>
      (\<exists>v. storage_sets (state_of (performBackgroundTask c i a d w)) =
              storage_sets w @ [[(''flexPortalData'', v)]])"
    by (simp add: performBackgroundTask_def syncData_def checkPortalStatus_def cleanupCache_def
        refreshAuthToken_def Let_def split: option.splits storage_read.splits)
  then show ?thesis
  proof
    assume "storage_sets (state_of (performBackgroundTask c i a d w)) = storage_sets w"
    then have "storage_sets (state_of (performBackgroundTask c i a d w)) = storage_sets w @ [] \<and>
        (\<forall>items\<in>set []. map fst items = [''flexPortalData''])"
      by simp
    then show ?thesis by blast
  next
    assume "\<exists>v. storage_sets (state_of (performBackgroundTask c i a d w)) =
              storage_sets w @ [[(''flexPortalData'', v)]]"
    then obtain v where "storage_sets (state_of (performBackgroundTask c i a d w)) =
        storage_sets w @ [[(''flexPortalData'', v)]] \<and>
        (\<forall>items\<in>set [[(''flexPortalData'', v)]]. map fst items = [''flexPortalData''])"
      by auto
    then show ?thesis by blast
  qed
qed

lemma executeTask_sets:
  "\<exists>extra. storage_sets (state_of (executeTask c i a d w)) = storage_sets w @ extra \<and>
     (\<forall>items\<in>set extra. map fst items = [''flexPortalData''])"
  using perform_sets [of c i a d w]
  by (cases "performBackgroundTask c i a d w") (simp_all add: executeTask_def)

lemma schedule_enter_sets [simp]: "storage_sets (schedule_enter t w) = storage_sets w"
  by (simp add: schedule_enter_def clearInterval_def Let_def split: option.splits)

lemma schedule_resume_sets [simp]: "storage_sets (schedule_resume t w) = storage_sets w"
  by (simp add: schedule_resume_def setInterval_def)

lemma schedule_sets:
  "\<exists>extra. storage_sets (state_of (scheduleBackgroundTask c topt w)) = storage_sets w @ extra \<and>
     (\<forall>items\<in>set extra. map fst items = [''flexPortalData''])"
proof (cases topt)
  case None
  then have "storage_sets (state_of (scheduleBackgroundTask c topt w)) = storage_sets w @ [] \<and>
      (\<forall>items\<in>set []. map fst items = [''flexPortalData''])"
    by (simp add: scheduleBackgroundTask_def)
  then show ?thesis by blast
next
  case (Some t)
  with executeTask_sets [of c "task_id t" "task_action t" "data_of t" "schedule_enter t w"]
  show ?thesis by (simp add: scheduleBackgroundTask_state Let_def)
qed

lemma fires_sets:
  "\<exists>extra. storage_sets (state_of (timer_fires c h w)) = storage_sets w @ extra \<and>
     (\<forall>items\<in>set extra. map fst items = [''flexPortalData''])"
proof (cases "map_of (timers w) h")
  case None
  then have "storage_sets (state_of (timer_fires c h w)) = storage_sets w @ [] \<and>
      (\<forall>items\<in>set []. map fst items = [''flexPortalData''])"
    by (simp add: timer_fires_def)
  then show ?thesis by blast
next
  case (Some tm)
  with executeTask_sets show ?thesis by (simp add: timer_fires_def)
qed

text \<open>
  C9. On \<^verbatim>\<open>onInstalled\<close> with reason \<^verbatim>\<open>install\<close> the listener makes one call of
  \<^verbatim>\<open>chrome.storage.local.set\<close>, with the five default settings and nothing else; when the
  write takes effect, storage then holds the five values and every other key as before. With
  any other reason it makes no call and storage is unchanged, and the coordinator's own
  listener never writes. A call of \<^verbatim>\<open>scheduleBackgroundTask\<close>, as startup makes them,
  and a firing of a timer add no call of \<^verbatim>\<open>set\<close> but ones that write the single key
  \<^verbatim>\<open>flexPortalData\<close>.
\<close>

theorem defaults_written_once:
  "(\<exists>w'. onInstalled c ''install'' w = Inr w' \<and>
         storage_sets w' = storage_sets w @
           [[(''extensionEnabled'', JBool True), (''autoRefresh'', JBool False),
             (''refreshInterval'', JNum 5000), (''notifications'', JBool True),
             (''theme'', JStr ''light'')]] \<and>
         (storage_writes c \<longrightarrow>
            map_of (storage w') ''extensionEnabled'' = Some (JBool True) \<and>
            map_of (storage w') ''autoRefresh'' = Some (JBool False) \<and>
            map_of (storage w') ''refreshInterval'' = Some (JNum 5000) \<and>
            map_of (storage w') ''notifications'' = Some (JBool True) \<and>
            map_of (storage w') ''theme'' = Some (JStr ''light'') \<and>
            (\<forall>k. k \<notin> {''extensionEnabled'', ''autoRefresh'', ''refreshInterval'', ''notifications'', ''theme''} \<longrightarrow>
                 map_of (storage w') k = map_of (storage w) k))) \<and>
   (reason \<noteq> ''install'' \<longrightarrow>
      (\<forall>w'. onInstalled c reason w = Inr w' \<longrightarrow>
            storage_sets w' = storage_sets w \<and> storage w' = storage w)) \<and>
   storage_sets (onInstalled_coordinator c reason w) = storage_sets w \<and>
   storage (onInstalled_coordinator c reason w) = storage w \<and>
   (\<exists>extra. storage_sets (state_of (scheduleBackgroundTask c topt w)) = storage_sets w @ extra \<and>
      (\<forall>items\<in>set extra. map fst items = [''flexPortalData''])) \<and>
   (\<exists>extra. storage_sets (state_of (timer_fires c h w)) = storage_sets w @ extra \<and>
      (\<forall>items\<in>set extra. map fst items = [''flexPortalData'']))"
proof -
  have install: "\<exists>w'. onInstalled c ''install'' w = Inr w' \<and>
         storage_sets w' = storage_sets w @
           [[(''extensionEnabled'', JBool True), (''autoRefresh'', JBool False),
             (''refreshInterval'', JNum 5000), (''notifications'', JBool True),
             (''theme'', JStr ''light'')]] \<and>
         (storage_writes c \<longrightarrow>
            map_of (storage w') ''extensionEnabled'' = Some (JBool True) \<and>
            map_of (storage w') ''autoRefresh'' = Some (JBool False) \<and>
            map_of (storage w') ''refreshInterval'' = Some (JNum 5000) \<and>
            map_of (storage w') ''notifications'' = Some (JBool True) \<and>
            map_of (storage w') ''theme'' = Some (JStr ''light'') \<and>
            (\<forall>k. k \<notin> {''extensionEnabled'', ''autoRefresh'', ''refreshInterval'', ''notifications'', ''theme''} \<longrightarrow>
                 map_of (storage w') k = map_of (storage w) k))"
    by (simp add: onInstalled_def storage_set_def default_settings_def Let_def AList.update_conv')
  have other: "reason \<noteq> ''install'' \<longrightarrow>
      (\<forall>w'. onInstalled c reason w = Inr w' \<longrightarrow>
            storage_sets w' = storage_sets w \<and> storage w' = storage w)"
    by (auto simp: onInstalled_def split: if_splits sum.splits)
  have coord: "storage_sets (onInstalled_coordinator c reason w) = storage_sets w \<and>
      storage (onInstalled_coordinator c reason w) = storage w"
    by (simp add: onInstalled_coordinator_def Let_def)
  from install other coord schedule_sets [of c topt w] fires_sets [of c h w] show ?thesis
    by blast
qed

theorem defaults_written_once_witness:
  "map_sum id storage_sets (onInstalled reliable ''install'' fresh) =
     Inr [[(''extensionEnabled'', JBool True), (''autoRefresh'', JBool False),
           (''refreshInterval'', JNum 5000), (''notifications'', JBool True),
           (''theme'', JStr ''light'')]] \<and>
   storage_writes reliable \<and>
   map (\<lambda>k. map_of (storage installed) k)
       [''extensionEnabled'', ''autoRefresh'', ''refreshInterval'', ''notifications'', ''theme'', ''other'']
     = [Some (JBool True), Some (JBool False), Some (JNum 5000), Some (JBool True),
        Some (JStr ''light''), None] \<and>
   map_sum id storage_sets (onInstalled reliable ''update'' cache_world) = Inr [] \<and>
   map_sum id storage (onInstalled reliable ''update'' cache_world) = Inr (storage cache_world) \<and>
   storage_sets (onInstalled_coordinator reliable ''install'' fresh) = [] \<and>
   length (storage_sets installed) = 1 \<and>
   length (filter (\<lambda>items. map fst items \<noteq> [''flexPortalData''])
     (storage_sets (state_of (scheduleBackgroundTask reliable (Some sync_task) installed)))) = 1 \<and>
   length (storage_sets (state_of (scheduleBackgroundTask reliable (Some sync_task) installed))) = 2"
proof -
  let ?five = "[(''extensionEnabled'', JBool True), (''autoRefresh'', JBool False),
           (''refreshInterval'', JNum 5000), (''notifications'', JBool True),
           (''theme'', JStr ''light'')]"
  have wr: "storage_writes reliable" by (simp add: reliable_def)
  from defaults_written_once [of reliable fresh, THEN conjunct1] obtain w' where w':
    "onInstalled reliable ''install'' fresh = Inr w'"
    "storage_sets w' = storage_sets fresh @ [?five]"
    "storage_writes reliable \<longrightarrow>
            map_of (storage w') ''extensionEnabled'' = Some (JBool True) \<and>
            map_of (storage w') ''autoRefresh'' = Some (JBool False) \<and>
            map_of (storage w') ''refreshInterval'' = Some (JNum 5000) \<and>
            map_of (storage w') ''notifications'' = Some (JBool True) \<and>
            map_of (storage w') ''theme'' = Some (JStr ''light'') \<and>
            (\<forall>k. k \<notin> {''extensionEnabled'', ''autoRefresh'', ''refreshInterval'', ''notifications'', ''theme''} \<longrightarrow>
                 map_of (storage w') k = map_of (storage fresh) k)"
    by blast
  from w'(1) have inst: "installed = w'" by (simp add: installed_def)
  from w'(1,2) have first: "map_sum id storage_sets (onInstalled reliable ''install'' fresh) = Inr [?five]"
    by (simp add: fresh_def)
  from w'(3) wr inst have second: "map (\<lambda>k. map_of (storage installed) k)
       [''extensionEnabled'', ''autoRefresh'', ''refreshInterval'', ''notifications'', ''theme'', ''other'']
     = [Some (JBool True), Some (JBool False), Some (JNum 5000), Some (JBool True),
        Some (JStr ''light''), None]"
    by (simp add: fresh_def)
  have upd: "onInstalled reliable ''update'' cache_world =
      Inr (say (ConsoleLog ''Extension updated to version 1.0.0'') cache_world)"
    by (simp add: onInstalled_def reliable_def)
  from defaults_written_once [of reliable cache_world "''update''", THEN conjunct2, THEN conjunct1] upd
  have third: "map_sum id storage_sets (onInstalled reliable ''update'' cache_world) = Inr [] \<and>
      map_sum id storage (onInstalled reliable ''update'' cache_world) = Inr (storage cache_world)"
    by (simp add: cache_world_def fresh_def say_def)
  from defaults_written_once [of reliable fresh "''install''"]
  have fourth: "storage_sets (onInstalled_coordinator reliable ''install'' fresh) = []"
    by (simp add: fresh_def)
  from w'(2) inst have one: "storage_sets installed = [?five]" by (simp add: fresh_def)
  from defaults_written_once [of reliable installed "''install''" "Some sync_task"] obtain extra where
    extra: "storage_sets (state_of (scheduleBackgroundTask reliable (Some sync_task) installed))
        = storage_sets installed @ extra"
      "\<forall>items\<in>set extra. map fst items = [''flexPortalData'']"
    by blast
  from extra(2) have "filter (\<lambda>items. map fst items \<noteq> [''flexPortalData'']) extra = []"
    by (simp add: filter_empty_conv)
  with extra(1) one have fifth: "length (filter (\<lambda>items. map fst items \<noteq> [''flexPortalData''])
     (storage_sets (state_of (scheduleBackgroundTask reliable (Some sync_task) installed)))) = 1"
    by simp
  have sixth: "length (storage_sets (state_of (scheduleBackgroundTask reliable (Some sync_task) installed))) = 2"
    by (simp add: installed_def onInstalled_def default_settings_def sync_task_def reliable_def
        fresh_def eval_scheduler Let_def)
  from first wr second third fourth one fifth sixth show ?thesis by simp
qed

end
